theory Spec2Isabelle
  imports Complex_Main "HOL-Library.AList" "HOL-Library.Multiset"
    "HOL-Library.List_Lexorder" "HOL-Library.Char_ord"
begin

section \<open>A positional inverted index with TF-IDF ranking\<close>

text \<open>
  The development follows the Python sources module by module: \<^verbatim>\<open>score_weight.py\<close>,
  \<^verbatim>\<open>utils.py\<close>, \<^verbatim>\<open>models.py\<close>, \<^verbatim>\<open>loader.py\<close>, \<^verbatim>\<open>optimizer.py\<close> and \<^verbatim>\<open>search.py\<close>.

  Conventions of the embedding:
  \<^item> Python \<^verbatim>\<open>float\<close> values are idealised as \<^typ>\<open>real\<close>: rounding, infinities and NaN are
    not modelled. Python \<^verbatim>\<open>int\<close> values are \<^typ>\<open>int\<close>.
  \<^item> Python \<^verbatim>\<open>str\<close> values are \<^typ>\<open>string\<close>; their order is the lexicographic order on
    characters (\<^verbatim>\<open>List_Lexorder\<close>, \<^verbatim>\<open>Char_ord\<close>).
  \<^item> A Python \<^verbatim>\<open>dict\<close> is an association list in insertion order with distinct keys:
    \<^const>\<open>map_of\<close> reads it, \<^const>\<open>AList.update\<close> writes it (in place when the key exists, at the
    end otherwise).
  \<^item> Every exception is a value of \<open>error\<close>; a function that can raise returns
    \<open>error + 'a\<close> with \<open>Inl\<close> for the exception.
  \<^item> \<open>Unrepresentable\<close> is not an exception. It marks the one place where the embedding
    stops although the code goes on: a JSON leaf whose type the records below cannot hold
    (a string where a number is expected, and the like). Python stores such a leaf unchecked
    and raises, if at all, where it is used. No property below is stated for such an input.
\<close>

datatype error =
    KeyError | IndexError | ValueError | TypeError | AttributeError
  | ZeroDivisionError | FileNotFoundError | JSONDecodeError | Unrepresentable

subsection \<open>Data model (\<^verbatim>\<open>models.py\<close>)\<close>

text \<open>Class \<^verbatim>\<open>Document\<close>; the Python field \<^verbatim>\<open>id\<close> is \<open>doc_id\<close> here.\<close>

record document =
  doc_id :: string
  title :: string
  url :: string
  content :: string
  date :: "string option"
  tags :: "string list option"

text \<open>Class \<^verbatim>\<open>DocumentTokenData\<close>; the Python field \<^verbatim>\<open>_weight\<close> is \<open>weight\<close>.\<close>

record document_token_data =
  tf :: real
  linear_tf :: int
  positions :: "int list"
  weight :: real

text \<open>
  Class \<^verbatim>\<open>Token\<close> keeps two views of its postings in one object: the dict \<^verbatim>\<open>__list__\<close> that
  \<^verbatim>\<open>__add_position__\<close> fills, and the sorted sequence \<^verbatim>\<open>list\<close> that \<^verbatim>\<open>__finalize__\<close> (or the
  cache reader) sets and that every query, the cache writer and the champions generator
  read. The two stages are two record types: \<open>working_token\<close> while the index is built,
  \<open>token\<close> afterwards. The Python field \<^verbatim>\<open>list\<close> is \<open>positional_list\<close>, after the name of the
  constructor argument that sets it. Class \<^verbatim>\<open>PositionalInvertedIndexOnMemory\<close> is split the
  same way, into its dict \<^verbatim>\<open>__tokens__\<close> and its sorted sequence \<^verbatim>\<open>tokens\<close>.
\<close>

record working_token =
  w_idf :: real
  w_linear_df :: int
  working_list :: "(string \<times> document_token_data) list"

record token =
  idf :: real
  linear_df :: int
  positional_list :: "(string \<times> document_token_data) list"
  champions_list :: "(string \<times> document_token_data) list option"

type_synonym working_index = "(string \<times> working_token) list"

record positional_inverted_index =
  tokens :: "(string \<times> token) list"

subsection \<open>Weights (\<^verbatim>\<open>score_weight.py\<close>)\<close>

definition PHRASE_QUERY_WEIGHT :: real where
  "PHRASE_QUERY_WEIGHT = 2"

definition TITLE_TOKEN_WEIGHT :: real where
  "TITLE_TOKEN_WEIGHT = 2"

definition TAG_TOKEN_WEIGHT :: real where
  "TAG_TOKEN_WEIGHT = 3 / 2"

definition DATE_WEIGHT :: real where
  "DATE_WEIGHT = 2 / 5"

definition INDEX_ELIMINATION :: "real option" where
  "INDEX_ELIMINATION = None"

text \<open>\<^verbatim>\<open>math.log2\<close>: raises \<^verbatim>\<open>ValueError\<close> outside its domain.\<close>

definition log2 :: "real \<Rightarrow> error + real" where
  "log2 x = (if x \<le> 0 then Inl ValueError else Inr (log 2 x))"

definition calculate_tf :: "int \<Rightarrow> error + real" where
  "calculate_tf n =
     (if n = 0 then Inr 0
      else case log2 (real_of_int n) of Inl e \<Rightarrow> Inl e | Inr l \<Rightarrow> Inr (1 + l))"

text \<open>
  The quotient \<^verbatim>\<open>number_of_docs / number_of_docs_contain_token\<close> is Python's true division;
  the divisor is not zero on the branch that divides.
\<close>

definition calculate_idf :: "int \<Rightarrow> int \<Rightarrow> error + real" where
  "calculate_idf number_of_docs_contain_token number_of_docs =
     (if number_of_docs_contain_token = 0 then Inr 0
      else log2 (real_of_int number_of_docs / real_of_int number_of_docs_contain_token))"

subsection \<open>Sorted lookup (\<^verbatim>\<open>utils.py\<close>)\<close>

text \<open>Python's \<^verbatim>\<open>a[i]\<close> on a list: a negative index counts from the end.\<close>

definition py_index :: "'a list \<Rightarrow> int \<Rightarrow> error + 'a" where
  "py_index a i =
     (let n = int (length a); j = (if i < 0 then n + i else i)
      in if 0 \<le> j \<and> j < n then Inr (a ! nat j) else Inl IndexError)"

text \<open>The \<^verbatim>\<open>while low < high\<close> loop of \<^verbatim>\<open>binary_search_tuple\<close>; it returns the final \<^verbatim>\<open>low\<close>.\<close>

function bs_loop :: "('k::linorder \<times> 'v) list \<Rightarrow> 'k \<Rightarrow> int \<Rightarrow> int \<Rightarrow> error + int" where
  "bs_loop a x low high =
     (if low < high then
        (case py_index a ((low + high) div 2) of
           Inl e \<Rightarrow> Inl e
         | Inr p \<Rightarrow>
             if fst p < x then bs_loop a x ((low + high) div 2 + 1) high
             else bs_loop a x low ((low + high) div 2))
      else Inr low)"
  by pat_completeness auto
termination
  by (relation "measure (\<lambda>(a, x, low, high). nat (high - low))") auto

definition binary_search_tuple :: "('k::linorder \<times> 'v) list \<Rightarrow> 'k \<Rightarrow> error + 'v" where
  "binary_search_tuple a x =
     (case bs_loop a x 0 (int (length a) - 1) of
        Inl e \<Rightarrow> Inl e
      | Inr low \<Rightarrow>
          (case py_index a low of
             Inl e \<Rightarrow> Inl e
           | Inr p \<Rightarrow> if fst p = x then Inr (snd p) else Inl KeyError))"

subsection \<open>External collaborators\<close>

text \<open>
  The tokenizer (\<^verbatim>\<open>tokenizer.tokenize\<close>, built on the \<^verbatim>\<open>hazm\<close> and \<^verbatim>\<open>emoji\<close> packages), the
  date parser (\<^verbatim>\<open>datetime.strptime\<close> with the format \<^verbatim>\<open>'%m/%d/%Y %I:%M:%S %p'\<close>) and
  \<^verbatim>\<open>datetime.timestamp\<close> are parameters. A \<^verbatim>\<open>datetime\<close> is represented by a real number that
  orders the instants as Python does; \<open>strptime\<close> returns \<open>None\<close> where Python raises
  \<^verbatim>\<open>ValueError\<close>. \<open>timestamp\<close> depends on the time zone of the platform and raises for
  instants at the ends of the range: \<^verbatim>\<open>datetime.min.timestamp()\<close> raises \<^verbatim>\<open>ValueError\<close>.
\<close>

type_synonym datetime = real

record env =
  tokenize :: "string \<Rightarrow> string list"
  strptime :: "string \<Rightarrow> datetime option"
  timestamp :: "datetime \<Rightarrow> error + real"

definition datetime_min :: datetime where
  "datetime_min = - 62135596800"

definition datetime_max :: datetime where
  "datetime_max = 253402300799999999 / 1000000"

text \<open>\<^verbatim>\<open>parse_date\<close>: a date that is \<^verbatim>\<open>None\<close> makes \<^verbatim>\<open>strptime\<close> raise \<^verbatim>\<open>TypeError\<close>, which is not caught.\<close>

definition parse_date :: "env \<Rightarrow> string option \<Rightarrow> datetime \<Rightarrow> error + datetime" where
  "parse_date E d dflt =
     (case d of
        None \<Rightarrow> Inl TypeError
      | Some s \<Rightarrow> (case strptime E s of None \<Rightarrow> Inr dflt | Some t \<Rightarrow> Inr t))"

text \<open>
  \<^verbatim>\<open>date_score\<close> calls \<^verbatim>\<open>timestamp()\<close> on \<^verbatim>\<open>min_date\<close>, on \<^verbatim>\<open>max_date\<close> and on the parsed date,
  in this order; each call can raise.
\<close>

definition date_score :: "env \<Rightarrow> string option \<Rightarrow> datetime \<Rightarrow> datetime \<Rightarrow> error + real" where
  "date_score E d max_date min_date =
     (case parse_date E d min_date of
        Inl e \<Rightarrow> Inl e
      | Inr date_obj \<Rightarrow>
          (case timestamp E min_date of
             Inl e \<Rightarrow> Inl e
           | Inr min_timestamp \<Rightarrow>
               (case timestamp E max_date of
                  Inl e \<Rightarrow> Inl e
                | Inr max_timestamp \<Rightarrow>
                    (case timestamp E date_obj of
                       Inl e \<Rightarrow> Inl e
                     | Inr date_timestamp \<Rightarrow>
                         (let total_delta = max 1 (max_timestamp - min_timestamp);
                              time_delta = date_timestamp - min_timestamp
                          in Inr (\<bar>time_delta / total_delta\<bar> * DATE_WEIGHT))))))"

subsection \<open>Building the index (\<^verbatim>\<open>models.py\<close>)\<close>

text \<open>Running a fallible function over a list, left to right, stopping at the first error.\<close>

fun traverse :: "('a \<Rightarrow> error + 'b) \<Rightarrow> 'a list \<Rightarrow> error + 'b list" where
  "traverse f [] = Inr []"
| "traverse f (x # xs) =
     (case f x of
        Inl e \<Rightarrow> Inl e
      | Inr y \<Rightarrow> (case traverse f xs of Inl e \<Rightarrow> Inl e | Inr ys \<Rightarrow> Inr (y # ys)))"

definition DocumentTokenData_init :: document_token_data where
  "DocumentTokenData_init = \<lparr>tf = - 1, linear_tf = 0, positions = [], weight = 1\<rparr>"

definition DocumentTokenData_add_position ::
    "int \<Rightarrow> real \<Rightarrow> document_token_data \<Rightarrow> document_token_data" where
  "DocumentTokenData_add_position position w d =
     d\<lparr>positions := positions d @ [position],
       linear_tf := linear_tf d + 1,
       weight := weight d * w\<rparr>"

definition update_tf :: "document_token_data \<Rightarrow> error + document_token_data" where
  "update_tf d =
     (case calculate_tf (linear_tf d) of
        Inl e \<Rightarrow> Inl e
      | Inr t \<Rightarrow> Inr (d\<lparr>tf := t * weight d\<rparr>))"

definition Token_init :: working_token where
  "Token_init = \<lparr>w_idf = - 1, w_linear_df = 0, working_list = []\<rparr>"

definition Token_add_position :: "string \<Rightarrow> int \<Rightarrow> real \<Rightarrow> working_token \<Rightarrow> working_token" where
  "Token_add_position d position w t =
     (case map_of (working_list t) d of
        None \<Rightarrow>
          t\<lparr>working_list :=
               AList.update d (DocumentTokenData_add_position position w DocumentTokenData_init)
                 (working_list t),
            w_linear_df := w_linear_df t + 1\<rparr>
      | Some source \<Rightarrow>
          t\<lparr>working_list :=
               AList.update d (DocumentTokenData_add_position position w source)
                 (working_list t)\<rparr>)"

definition Token_finalize :: "int \<Rightarrow> working_token \<Rightarrow> error + token" where
  "Token_finalize number_of_documents t =
     (case calculate_idf (w_linear_df t) number_of_documents of
        Inl e \<Rightarrow> Inl e
      | Inr i \<Rightarrow>
          (case traverse (\<lambda>(d, token_data). map_sum id (Pair d) (update_tf token_data))
                  (working_list t) of
             Inl e \<Rightarrow> Inl e
           | Inr items \<Rightarrow>
               Inr \<lparr>idf = i, linear_df = w_linear_df t,
                    positional_list = sort_key fst items, champions_list = None\<rparr>))"

definition add_token :: "string \<Rightarrow> string \<Rightarrow> int \<Rightarrow> real \<Rightarrow> working_index \<Rightarrow> working_index" where
  "add_token token_str d position w ix =
     (case map_of ix token_str of
        None \<Rightarrow> AList.update token_str (Token_add_position d position w Token_init) ix
      | Some source \<Rightarrow> AList.update token_str (Token_add_position d position w source) ix)"

definition finalize :: "int \<Rightarrow> working_index \<Rightarrow> error + positional_inverted_index" where
  "finalize number_of_documents ix =
     (case traverse (\<lambda>(s, t). map_sum id (Pair s) (Token_finalize number_of_documents t)) ix of
        Inl e \<Rightarrow> Inl e
      | Inr items \<Rightarrow> Inr \<lparr>tokens = sort_key fst items\<rparr>)"

subsection \<open>Reading the index (\<^verbatim>\<open>models.py\<close>)\<close>

definition get_search_scope_list :: "token \<Rightarrow> (string \<times> document_token_data) list" where
  "get_search_scope_list t =
     (case champions_list t of Some c \<Rightarrow> c | None \<Rightarrow> positional_list t)"

definition Token_getitem :: "token \<Rightarrow> string \<Rightarrow> error + document_token_data" where
  "Token_getitem t d = binary_search_tuple (get_search_scope_list t) d"

definition Token_get_term_frequency :: "token \<Rightarrow> string \<Rightarrow> error + int" where
  "Token_get_term_frequency t d =
     (case Token_getitem t d of
        Inr data \<Rightarrow> Inr (linear_tf data)
      | Inl e \<Rightarrow> if e = KeyError then Inr 0 else Inl e)"

definition getitem :: "positional_inverted_index \<Rightarrow> string \<Rightarrow> error + token" where
  "getitem ix token_str = binary_search_tuple (tokens ix) token_str"

subsection \<open>Documents and index construction (\<^verbatim>\<open>models.py\<close>, \<^verbatim>\<open>loader.py\<close>)\<close>

definition get_tokens :: "env \<Rightarrow> document \<Rightarrow> string list" where
  "get_tokens E d = tokenize E (content d)"

definition get_weighted_tokens :: "env \<Rightarrow> document \<Rightarrow> (string \<times> real) list" where
  "get_weighted_tokens E d =
     map (\<lambda>x. (x, TITLE_TOKEN_WEIGHT)) (tokenize E (title d)) @
     (case tags d of
        None \<Rightarrow> []
      | Some ts \<Rightarrow> concat (map (\<lambda>tag. map (\<lambda>x. (x, TAG_TOKEN_WEIGHT)) (tokenize E tag)) ts))"

text \<open>The body of the loop over the documents in \<^verbatim>\<open>create_pii\<close>.\<close>

definition index_document :: "env \<Rightarrow> document \<Rightarrow> working_index \<Rightarrow> working_index" where
  "index_document E d ix =
     (let ix1 = fold (\<lambda>(tok, w). add_token tok (doc_id d) (- 1) w) (get_weighted_tokens E d) ix;
          toks = get_tokens E d
      in fold (\<lambda>i. add_token (toks ! i) (doc_id d) (int i) 1) [0..<length toks] ix1)"

definition create_pii :: "env \<Rightarrow> document list \<Rightarrow> error + positional_inverted_index" where
  "create_pii E ds = finalize (int (length ds)) (fold (index_document E) ds [])"

definition create_query_pii :: "env \<Rightarrow> string \<Rightarrow> error + positional_inverted_index" where
  "create_query_pii E query =
     create_pii E
       [\<lparr>doc_id = ''0'', title = [], url = [], content = query, date = None, tags = None\<rparr>]"

subsection \<open>The collection (\<^verbatim>\<open>IRData\<close> in \<^verbatim>\<open>models.py\<close>)\<close>

record irdata =
  pii :: positional_inverted_index
  docs :: "(string \<times> document) list"
  max_doc_date :: datetime
  min_doc_date :: datetime
  doc_lengths :: "(string \<times> real) list"

text \<open>The loop over \<^verbatim>\<open>docs\<close> in \<^verbatim>\<open>IRData.__init__\<close>: the metadata dict and the date range.\<close>

fun docs_loop ::
    "env \<Rightarrow> document list \<Rightarrow> (string \<times> document) list \<times> datetime \<times> datetime \<Rightarrow>
     error + (string \<times> document) list \<times> datetime \<times> datetime" where
  "docs_loop E [] acc = Inr acc"
| "docs_loop E (d # ds) (dm, mx, mn) =
     (case parse_date E (date d) mx of
        Inl e \<Rightarrow> Inl e
      | Inr a \<Rightarrow>
          (case parse_date E (date d) mn of
             Inl e \<Rightarrow> Inl e
           | Inr b \<Rightarrow>
               docs_loop E ds
                 (AList.update (doc_id d)
                    \<lparr>doc_id = doc_id d, title = title d, url = url d, content = [],
                     date = date d, tags = None\<rparr> dm,
                  max a mx, min b mn)))"

text \<open>\<^verbatim>\<open>if k in d: d[k] += v else: d[k] = v\<close>\<close>

definition dict_add :: "'k \<Rightarrow> real \<Rightarrow> ('k \<times> real) list \<Rightarrow> ('k \<times> real) list" where
  "dict_add k v d =
     (case map_of d k of
        Some old \<Rightarrow> AList.update k (old + v) d
      | None \<Rightarrow> AList.update k v d)"

definition compute_doc_lengths :: "positional_inverted_index \<Rightarrow> (string \<times> real) list" where
  "compute_doc_lengths ix =
     map (\<lambda>(d, v). (d, max 1 (sqrt v)))
       (fold (\<lambda>(s, t). fold (\<lambda>(d, doc_data). dict_add d ((tf doc_data * idf t)\<^sup>2))
                           (positional_list t))
          (tokens ix) [])"

definition IRData_init :: "env \<Rightarrow> positional_inverted_index \<Rightarrow> document list \<Rightarrow> error + irdata" where
  "IRData_init E ix ds =
     (case docs_loop E ds ([], datetime_min, datetime_max) of
        Inl e \<Rightarrow> Inl e
      | Inr (dm, mx, mn) \<Rightarrow>
          Inr \<lparr>pii = ix, docs = dm, max_doc_date = mx, min_doc_date = mn,
               doc_lengths = compute_doc_lengths ix\<rparr>)"

definition get_document_frequency :: "irdata \<Rightarrow> string \<Rightarrow> error + int" where
  "get_document_frequency ir token_str =
     (case getitem (pii ir) token_str of
        Inr t \<Rightarrow> Inr (linear_df t)
      | Inl e \<Rightarrow> if e = KeyError then Inr 0 else Inl e)"

definition get_term_frequency :: "irdata \<Rightarrow> string \<Rightarrow> string \<Rightarrow> error + int" where
  "get_term_frequency ir token_str d =
     (case getitem (pii ir) token_str of
        Inr t \<Rightarrow> Token_get_term_frequency t d
      | Inl e \<Rightarrow> if e = KeyError then Inr 0 else Inl e)"

subsection \<open>Files and JSON\<close>

text \<open>
  \<^verbatim>\<open>json.load\<close> and \<^verbatim>\<open>json.dump\<close> are library functions. A file is represented by what
  \<^verbatim>\<open>json.load\<close> makes of it: text that does not parse (\<^verbatim>\<open>JSONDecodeError\<close>), or the value it
  parses to; \<^verbatim>\<open>json.dump\<close> stores the value it is given. A JSON object is the \<^verbatim>\<open>dict\<close> that
  \<^verbatim>\<open>json.load\<close> returns for it. The code stores the leaves of a loaded file (numbers,
  strings, position lists) without looking at them. The records of this theory hold numbers
  and strings only, so a leaf of another JSON type cannot be stored: the functions \<open>as_float\<close>
  to \<open>as_opt_str_list\<close> below return the marker \<open>Unrepresentable\<close> for it, which is where
  the embedding stops; on every other input they are the identity that the code performs.
  Iteration and subscripting raise \<^verbatim>\<open>TypeError\<close> and \<^verbatim>\<open>KeyError\<close> exactly where Python does.
\<close>

datatype json =
    JNull | JBool bool | JInt int | JFloat real | JString string
  | JArray "json list" | JObject "(string \<times> json) list"

datatype file_content = NotJSON | JSON json

type_synonym filesystem = "string \<Rightarrow> file_content option"

definition bind_err :: "error + 'a \<Rightarrow> ('a \<Rightarrow> error + 'b) \<Rightarrow> error + 'b" where
  "bind_err m f = (case m of Inl e \<Rightarrow> Inl e | Inr x \<Rightarrow> f x)"

text \<open>\<^verbatim>\<open>for x in v\<close> and \<^verbatim>\<open>v[key]\<close> with a string key, on a value returned by \<^verbatim>\<open>json.load\<close>.\<close>

fun py_iter :: "json \<Rightarrow> error + json list" where
  "py_iter (JArray xs) = Inr xs"
| "py_iter (JObject kvs) = Inr (map (\<lambda>kv. JString (fst kv)) kvs)"
| "py_iter (JString s) = Inr (map (\<lambda>c. JString [c]) s)"
| "py_iter v = Inl TypeError"

fun py_subscript :: "json \<Rightarrow> string \<Rightarrow> error + json" where
  "py_subscript (JObject kvs) key =
     (case map_of kvs key of None \<Rightarrow> Inl KeyError | Some v \<Rightarrow> Inr v)"
| "py_subscript v key = Inl TypeError"

fun as_float :: "json \<Rightarrow> error + real" where
  "as_float (JFloat r) = Inr r"
| "as_float (JInt i) = Inr (real_of_int i)"
| "as_float v = Inl Unrepresentable"

fun as_int :: "json \<Rightarrow> error + int" where
  "as_int (JInt i) = Inr i"
| "as_int v = Inl Unrepresentable"

fun as_str :: "json \<Rightarrow> error + string" where
  "as_str (JString s) = Inr s"
| "as_str v = Inl Unrepresentable"

fun as_int_list :: "json \<Rightarrow> error + int list" where
  "as_int_list (JArray xs) = traverse as_int xs"
| "as_int_list v = Inl Unrepresentable"

fun as_opt_str :: "json \<Rightarrow> error + string option" where
  "as_opt_str JNull = Inr None"
| "as_opt_str (JString s) = Inr (Some s)"
| "as_opt_str v = Inl Unrepresentable"

fun as_opt_str_list :: "json \<Rightarrow> error + string list option" where
  "as_opt_str_list JNull = Inr None"
| "as_opt_str_list (JArray xs) = map_sum id Some (traverse as_str xs)"
| "as_opt_str_list v = Inl Unrepresentable"

definition json_load :: "filesystem \<Rightarrow> string \<Rightarrow> error + json" where
  "json_load fs path =
     (case fs path of
        None \<Rightarrow> Inl FileNotFoundError
      | Some NotJSON \<Rightarrow> Inl JSONDecodeError
      | Some (JSON j) \<Rightarrow> Inr j)"

subsection \<open>Loading documents (\<^verbatim>\<open>loader.py\<close>)\<close>

definition load_document :: "string \<times> json \<Rightarrow> error + document" where
  "load_document kv =
     bind_err (bind_err (py_subscript (snd kv) ''title'') as_str) (\<lambda>t.
     bind_err (bind_err (py_subscript (snd kv) ''url'') as_str) (\<lambda>u.
     bind_err (bind_err (py_subscript (snd kv) ''content'') as_str) (\<lambda>c.
     bind_err (bind_err (py_subscript (snd kv) ''date'') as_opt_str) (\<lambda>dt.
     bind_err (bind_err (py_subscript (snd kv) ''tags'') as_opt_str_list) (\<lambda>tg.
     Inr \<lparr>doc_id = fst kv, title = t, url = u, content = c, date = dt, tags = tg\<rparr>)))))"

definition load_documents :: "filesystem \<Rightarrow> string \<Rightarrow> error + document list" where
  "load_documents fs file =
     bind_err (json_load fs file) (\<lambda>json_data.
       case json_data of
         JObject items \<Rightarrow> traverse load_document items
       | _ \<Rightarrow> Inl AttributeError)"

subsection \<open>The cache and the champions lists (\<^verbatim>\<open>optimizer.py\<close>)\<close>

definition encode_posting :: "string \<times> document_token_data \<Rightarrow> json" where
  "encode_posting p =
     JObject [(''doc_id'', JString (fst p)), (''tf'', JFloat (tf (snd p))),
              (''lf'', JInt (linear_tf (snd p))), (''list'', JArray (map JInt (positions (snd p))))]"

definition encode_token :: "string \<times> token \<Rightarrow> json" where
  "encode_token p =
     JObject [(''term'', JString (fst p)), (''idf'', JFloat (idf (snd p))),
              (''df'', JInt (linear_df (snd p))),
              (''list'', JArray (map encode_posting (positional_list (snd p))))]"

definition write_cache :: "positional_inverted_index \<Rightarrow> string \<Rightarrow> filesystem \<Rightarrow> filesystem" where
  "write_cache ix file fs =
     fs(file @ ''.cache'' \<mapsto> JSON (JArray (map encode_token (tokens ix))))"

definition decode_posting :: "json \<Rightarrow> error + string \<times> document_token_data" where
  "decode_posting json_list =
     bind_err (bind_err (py_subscript json_list ''tf'') as_float) (\<lambda>t.
     bind_err (bind_err (py_subscript json_list ''lf'') as_int) (\<lambda>lf.
     bind_err (bind_err (py_subscript json_list ''list'') as_int_list) (\<lambda>ps.
     bind_err (bind_err (py_subscript json_list ''doc_id'') as_str) (\<lambda>d.
     Inr (d, \<lparr>tf = t, linear_tf = lf, positions = ps, weight = 1\<rparr>)))))"

definition decode_token :: "json \<Rightarrow> error + string \<times> token" where
  "decode_token json_token =
     bind_err (bind_err (py_subscript json_token ''list'') py_iter) (\<lambda>items.
     bind_err (traverse decode_posting items) (\<lambda>pl.
     bind_err (bind_err (py_subscript json_token ''idf'') as_float) (\<lambda>i.
     bind_err (bind_err (py_subscript json_token ''df'') as_int) (\<lambda>df.
     bind_err (bind_err (py_subscript json_token ''term'') as_str) (\<lambda>term.
     Inr (term, \<lparr>idf = i, linear_df = df, positional_list = pl, champions_list = None\<rparr>))))))"

text \<open>\<^verbatim>\<open>read_from_cache\<close>: \<open>Inr None\<close> is the Python result \<^verbatim>\<open>None\<close>.\<close>

definition read_from_cache ::
    "filesystem \<Rightarrow> string \<Rightarrow> error + positional_inverted_index option" where
  "read_from_cache fs file =
     (case json_load fs (file @ ''.cache'') of
        Inl e \<Rightarrow> if e = FileNotFoundError then Inr None else Inl e
      | Inr json_data \<Rightarrow>
          bind_err (py_iter json_data) (\<lambda>items.
          bind_err (traverse decode_token items) (\<lambda>ts.
          Inr (Some \<lparr>tokens = ts\<rparr>))))"

text \<open>Python's true division of floats and the slice \<^verbatim>\<open>xs[:r]\<close>.\<close>

definition py_div :: "real \<Rightarrow> real \<Rightarrow> error + real" where
  "py_div a b = (if b = 0 then Inl ZeroDivisionError else Inr (a / b))"

definition py_take :: "int \<Rightarrow> 'a list \<Rightarrow> 'a list" where
  "py_take r xs = (if r < 0 then take (nat (int (length xs) + r)) xs else take (nat r) xs)"

text \<open>The sort key \<^verbatim>\<open>tf_idf_func\<close> of \<^verbatim>\<open>generate_champions_list\<close>.\<close>

definition tf_idf_func :: "irdata \<Rightarrow> token \<Rightarrow> string \<times> document_token_data \<Rightarrow> error + real" where
  "tf_idf_func ir t td =
     (case map_of (doc_lengths ir) (fst td) of
        None \<Rightarrow> Inl KeyError
      | Some len \<Rightarrow> py_div (idf t * tf (snd td)) len)"

text \<open>
  The body of the loop over the tokens. \<^verbatim>\<open>sorted(..., key=f, reverse=True)\<close> computes the key of
  every element first and then sorts stably, larger keys first.
\<close>

definition champions_of :: "irdata \<Rightarrow> int \<Rightarrow> token \<Rightarrow> error + token" where
  "champions_of ir r t =
     (case traverse (tf_idf_func ir t) (positional_list t) of
        Inl e \<Rightarrow> Inl e
      | Inr keys \<Rightarrow>
          (let tf_sorted = map snd (sort_key (\<lambda>p. - fst p) (zip keys (positional_list t)))
           in Inr (t\<lparr>champions_list := Some (sort_key fst (py_take r tf_sorted))\<rparr>)))"

definition generate_champions_list :: "irdata \<Rightarrow> int option \<Rightarrow> error + irdata" where
  "generate_champions_list ir r =
     (case r of
        None \<Rightarrow> Inr ir
      | Some n \<Rightarrow>
          (case traverse (\<lambda>(s, t). map_sum id (Pair s) (champions_of ir n t))
                  (tokens (pii ir)) of
             Inl e \<Rightarrow> Inl e
           | Inr ts \<Rightarrow> Inr (ir\<lparr>pii := \<lparr>tokens = ts\<rparr>\<rparr>)))"

subsection \<open>Creating a collection (\<^verbatim>\<open>create\<close> in \<^verbatim>\<open>loader.py\<close>)\<close>

text \<open>The result is paired with the file system that \<^verbatim>\<open>create\<close> leaves behind.\<close>

definition create ::
    "env \<Rightarrow> filesystem \<Rightarrow> string \<Rightarrow> bool \<Rightarrow> int option \<Rightarrow> (error + irdata) \<times> filesystem" where
  "create E fs file cache champions_list_r =
     (case load_documents fs file of
        Inl e \<Rightarrow> (Inl e, fs)
      | Inr ds \<Rightarrow>
          (let rebuild =
                 (case create_pii E ds of
                    Inl e \<Rightarrow> (Inl e, fs)
                  | Inr ix \<Rightarrow>
                      (bind_err (IRData_init E ix ds)
                         (\<lambda>ir. generate_champions_list ir champions_list_r),
                       if cache then write_cache ix file fs else fs))
           in if cache then
                (case read_from_cache fs file of
                   Inl e \<Rightarrow> (Inl e, fs)
                 | Inr (Some cache_pii) \<Rightarrow>
                     (bind_err (IRData_init E cache_pii ds)
                        (\<lambda>ir. generate_champions_list ir champions_list_r), fs)
                 | Inr None \<Rightarrow> rebuild)
              else rebuild))"

subsection \<open>Scoring (\<^verbatim>\<open>search.py\<close>)\<close>

text \<open>The loop over the postings of one term in \<^verbatim>\<open>cosine_score\<close>, with its \<^verbatim>\<open>break\<close>.\<close>

fun cosine_postings ::
    "token \<Rightarrow> real \<Rightarrow> (string \<times> document_token_data) list \<Rightarrow> (string \<times> real) list \<Rightarrow>
     (string \<times> real) list" where
  "cosine_postings token_data wtq [] doc_scores = doc_scores"
| "cosine_postings token_data wtq (p # ps) doc_scores =
     (let wtd = tf (snd p) * idf token_data;
          doc_scores' = dict_add (fst p) (wtd * wtq) doc_scores
      in if (case INDEX_ELIMINATION of None \<Rightarrow> False | Some threshold \<Rightarrow> wtd < threshold)
         then doc_scores'
         else cosine_postings token_data wtq ps doc_scores')"

text \<open>The loop over the query terms; \<^verbatim>\<open>KeyError\<close> from \<^verbatim>\<open>pii[token]\<close> skips the term.\<close>

fun cosine_terms ::
    "positional_inverted_index \<Rightarrow> (string \<times> token) list \<Rightarrow> (string \<times> real) list \<Rightarrow>
     error + (string \<times> real) list" where
  "cosine_terms ix [] doc_scores = Inr doc_scores"
| "cosine_terms ix (q # qs) doc_scores =
     (case py_index (positional_list (snd q)) 0 of
        Inl e \<Rightarrow> Inl e
      | Inr first \<Rightarrow>
          (case getitem ix (fst q) of
             Inl e \<Rightarrow> if e = KeyError then cosine_terms ix qs doc_scores else Inl e
           | Inr token_data \<Rightarrow>
               cosine_terms ix qs
                 (cosine_postings token_data (tf (snd first))
                    (get_search_scope_list token_data) doc_scores)))"

definition cosine_score ::
    "positional_inverted_index \<Rightarrow> positional_inverted_index \<Rightarrow> error + (string \<times> real) list" where
  "cosine_score ix query_pii = cosine_terms ix (tokens query_pii) []"

text \<open>\<^verbatim>\<open>pii[token][doc_id].positions\<close>\<close>

definition lookup_positions ::
    "positional_inverted_index \<Rightarrow> string \<Rightarrow> string \<Rightarrow> error + int list" where
  "lookup_positions ix token_str d =
     bind_err (getitem ix token_str) (\<lambda>t.
     bind_err (Token_getitem t d) (\<lambda>data. Inr (positions data)))"

text \<open>
  The \<^verbatim>\<open>while token_pos + 1 < len_of_query\<close> loop of \<^verbatim>\<open>phrase_query\<close>; it returns
  \<^verbatim>\<open>positions\<close> and the final \<^verbatim>\<open>token_pos\<close>.
\<close>

function phrase_start ::
    "positional_inverted_index \<Rightarrow> (string \<times> token) list \<Rightarrow> string \<Rightarrow> nat \<Rightarrow>
     error + int list option \<times> nat" where
  "phrase_start ix qtokens d token_pos =
     (if token_pos + 1 < length qtokens then
        (case lookup_positions ix (fst (qtokens ! token_pos)) d of
           Inr ps \<Rightarrow> Inr (Some ps, token_pos)
         | Inl e \<Rightarrow>
             if e = KeyError then phrase_start ix qtokens d (token_pos + 1) else Inl e)
      else Inr (None, token_pos))"
  by pat_completeness auto
termination
  by (relation "measure (\<lambda>(ix, qtokens, d, token_pos). length qtokens - token_pos)") auto

text \<open>The loop over \<^verbatim>\<open>query_pii.tokens[token_pos + 1:]\<close> for one start position.\<close>

fun phrase_walk ::
    "positional_inverted_index \<Rightarrow> string \<Rightarrow> (string \<times> token) list \<Rightarrow> int \<Rightarrow> int \<Rightarrow>
     error + int" where
  "phrase_walk ix d [] pos match_length = Inr match_length"
| "phrase_walk ix d (q # qs) pos match_length =
     (case lookup_positions ix (fst q) d of
        Inl e \<Rightarrow> if e = KeyError then Inr match_length else Inl e
      | Inr sp \<Rightarrow>
          if pos + 1 \<in> set sp then phrase_walk ix d qs (pos + 1) (match_length + 1)
          else Inr match_length)"

text \<open>The loop over the start positions.\<close>

fun phrase_positions ::
    "positional_inverted_index \<Rightarrow> string \<Rightarrow> (string \<times> token) list \<Rightarrow> int list \<Rightarrow> int \<Rightarrow>
     error + int" where
  "phrase_positions ix d qs [] max_consecutive = Inr max_consecutive"
| "phrase_positions ix d qs (start_pos # ps) max_consecutive =
     (if start_pos = - 1 then phrase_positions ix d qs ps max_consecutive
      else
        (case phrase_walk ix d qs start_pos 1 of
           Inl e \<Rightarrow> Inl e
         | Inr match_length \<Rightarrow>
             phrase_positions ix d qs ps (max max_consecutive match_length)))"

text \<open>The loop over \<^verbatim>\<open>doc_ids\<close>.\<close>

fun phrase_docs ::
    "positional_inverted_index \<Rightarrow> (string \<times> token) list \<Rightarrow> string list \<Rightarrow>
     (string \<times> real) list \<Rightarrow> error + (string \<times> real) list" where
  "phrase_docs ix qtokens [] doc_scores = Inr doc_scores"
| "phrase_docs ix qtokens (d # ds) doc_scores =
     (case phrase_start ix qtokens d 0 of
        Inl e \<Rightarrow> Inl e
      | Inr (None, token_pos) \<Rightarrow> phrase_docs ix qtokens ds doc_scores
      | Inr (Some ps, token_pos) \<Rightarrow>
          if token_pos + 1 \<ge> length qtokens then phrase_docs ix qtokens ds doc_scores
          else
            (case phrase_positions ix d (drop (token_pos + 1) qtokens) ps 0 of
               Inl e \<Rightarrow> Inl e
             | Inr max_consecutive \<Rightarrow>
                 if max_consecutive > 1 then
                   phrase_docs ix qtokens ds
                     (AList.update d
                        (1 + PHRASE_QUERY_WEIGHT *
                           (real_of_int max_consecutive / real (length qtokens)))
                        doc_scores)
                 else phrase_docs ix qtokens ds doc_scores))"

definition phrase_query ::
    "positional_inverted_index \<Rightarrow> positional_inverted_index \<Rightarrow> string list \<Rightarrow>
     error + (string \<times> real) list" where
  "phrase_query ix query_pii doc_ids = phrase_docs ix (tokens query_pii) doc_ids []"

subsection \<open>Top-k selection (\<^verbatim>\<open>heapq\<close>) and \<^verbatim>\<open>search\<close>\<close>

text \<open>Class \<^verbatim>\<open>__SearchedDocument\<close>: a document with its score; it compares by score.\<close>

record searched_document =
  doc :: document
  score :: real

text \<open>
  \<^verbatim>\<open>heapq.heappush\<close> as CPython implements it: append the item, then \<^verbatim>\<open>_siftdown\<close> moves it
  towards the root while it is smaller than its parent.
\<close>

function siftdown ::
    "searched_document list \<Rightarrow> searched_document \<Rightarrow> nat \<Rightarrow> nat \<Rightarrow> searched_document list" where
  "siftdown heap newitem startpos pos =
     (if pos > startpos then
        (let parentpos = (pos - 1) div 2; parent = heap ! parentpos
         in if score newitem < score parent
            then siftdown (heap[pos := parent]) newitem startpos parentpos
            else heap[pos := newitem])
      else heap[pos := newitem])"
  by pat_completeness auto
termination
  by (relation "measure (\<lambda>(heap, newitem, startpos, pos). pos)") auto

definition heappush :: "searched_document list \<Rightarrow> searched_document \<Rightarrow> searched_document list" where
  "heappush heap item = siftdown (heap @ [item]) item 0 (length heap)"

text \<open>
  \<^verbatim>\<open>heapq.nlargest(n, iterable, key)\<close> returns what
  \<^verbatim>\<open>sorted(iterable, key=key, reverse=True)[:n]\<close> returns for \<^verbatim>\<open>n \<ge> 0\<close> (a stable sort, larger
  keys first) and the empty list for a negative \<^verbatim>\<open>n\<close>.
\<close>

definition nlargest :: "int \<Rightarrow> ('a \<Rightarrow> real) \<Rightarrow> 'a list \<Rightarrow> 'a list" where
  "nlargest n key xs = take (nat n) (sort_key (\<lambda>x. - key x) xs)"

text \<open>\<^verbatim>\<open>d.get(k, default)\<close>\<close>

definition dict_get :: "('k \<times> 'v) list \<Rightarrow> 'k \<Rightarrow> 'v \<Rightarrow> 'v" where
  "dict_get d k dflt = (case map_of d k of None \<Rightarrow> dflt | Some v \<Rightarrow> v)"

text \<open>The body of the loop over \<^verbatim>\<open>doc_scores.items()\<close> in \<^verbatim>\<open>search\<close>, up to the push.\<close>

definition scored_document ::
    "env \<Rightarrow> irdata \<Rightarrow> bool \<Rightarrow> (string \<times> real) list option \<Rightarrow> string \<times> real \<Rightarrow>
     error + searched_document" where
  "scored_document E ir with_date phrase_scores item =
     (case map_of (docs ir) (fst item) of
        None \<Rightarrow> Inl KeyError
      | Some dc \<Rightarrow>
          (case map_of (doc_lengths ir) (fst item) of
             None \<Rightarrow> Inl KeyError
           | Some len \<Rightarrow>
               bind_err (py_div (snd item) len) (\<lambda>normalized_score.
                 let s1 = (case phrase_scores of
                             None \<Rightarrow> normalized_score
                           | Some ps \<Rightarrow> normalized_score * dict_get ps (fst item) 1)
                 in if with_date then
                      bind_err (date_score E (date dc) (max_doc_date ir) (min_doc_date ir))
                        (\<lambda>b. Inr \<lparr>doc = dc, score = s1 + b\<rparr>)
                    else Inr \<lparr>doc = dc, score = s1\<rparr>)))"

fun push_all ::
    "env \<Rightarrow> irdata \<Rightarrow> bool \<Rightarrow> (string \<times> real) list option \<Rightarrow> (string \<times> real) list \<Rightarrow>
     searched_document list \<Rightarrow> error + searched_document list" where
  "push_all E ir with_date phrase_scores [] doc_heap = Inr doc_heap"
| "push_all E ir with_date phrase_scores (item # items) doc_heap =
     (case scored_document E ir with_date phrase_scores item of
        Inl e \<Rightarrow> Inl e
      | Inr sd \<Rightarrow> push_all E ir with_date phrase_scores items (heappush doc_heap sd))"

definition search ::
    "env \<Rightarrow> irdata \<Rightarrow> string \<Rightarrow> int \<Rightarrow> bool \<Rightarrow> bool \<Rightarrow>
     (positional_inverted_index \<Rightarrow> positional_inverted_index \<Rightarrow> error + (string \<times> real) list) \<Rightarrow>
     error + (document \<times> real) list" where
  "search E ir query k with_date phrase_query_score score_function =
     bind_err (create_query_pii E query) (\<lambda>query_pii.
     bind_err (score_function (pii ir) query_pii) (\<lambda>doc_scores.
     bind_err (if phrase_query_score
               then map_sum id Some (phrase_query (pii ir) query_pii (map fst doc_scores))
               else Inr None) (\<lambda>phrase_scores.
     bind_err (push_all E ir with_date phrase_scores doc_scores []) (\<lambda>doc_heap.
     Inr (map (\<lambda>sd. (doc sd, score sd)) (nlargest k score doc_heap))))))"

subsection \<open>A tokenizer for the examples\<close>

text \<open>
  The examples below run the code with a tokenizer that splits at spaces and drops empty
  tokens, with a date parser that knows the two dates the examples use (their instants are
  the POSIX timestamps in the time zone UTC) and rejects the other strings the examples
  use, none of which is a date, and with a \<open>timestamp\<close> that raises \<^verbatim>\<open>ValueError\<close> on
  \<^verbatim>\<open>datetime.min\<close>.
\<close>

fun split_spaces :: "string \<Rightarrow> string \<Rightarrow> string list" where
  "split_spaces [] cur = (if cur = [] then [] else [cur])"
| "split_spaces (c # cs) cur =
     (if c = CHR '' '' then (if cur = [] then split_spaces cs [] else cur # split_spaces cs [])
      else split_spaces cs (cur @ [c]))"

definition example_strptime :: "string \<Rightarrow> datetime option" where
  "example_strptime s =
     (if s = ''6/28/2024 5:35:28 PM'' then Some 1719596128
      else if s = ''6/27/2024 5:35:28 PM'' then Some 1719509728
      else None)"

definition example_timestamp :: "datetime \<Rightarrow> error + real" where
  "example_timestamp t = (if t \<le> datetime_min then Inl ValueError else Inr t)"

definition example_env :: env where
  "example_env =
     \<lparr>tokenize = (\<lambda>s. split_spaces s []), strptime = example_strptime,
      timestamp = example_timestamp\<rparr>"

subsection \<open>Auxiliary notions\<close>




text \<open>
  The document vector length as the specification words it: the square root, floored at 1,
  of the sum of \<open>(tf * idf)\<^sup>2\<close> over the postings of the document in the full postings of all
  terms.
\<close>

definition doc_vector_length :: "positional_inverted_index \<Rightarrow> string \<Rightarrow> real" where
  "doc_vector_length ix d =
     max 1 (sqrt (\<Sum>p\<leftarrow>tokens ix. \<Sum>q\<leftarrow>filter (\<lambda>q. fst q = d) (positional_list (snd p)).
                    (tf (snd q) * idf (snd p))\<^sup>2))"

text \<open>The documents that occur in the full postings of some term.\<close>

definition posting_ids :: "positional_inverted_index \<Rightarrow> string set" where
  "posting_ids ix = (\<Union>p \<in> set (tokens ix). fst ` set (positional_list (snd p)))"

text \<open>
  The score by which the specification selects champions:
  \<open>idf * tf / document_vector_length\<close>.
\<close>

definition champion_score ::
    "positional_inverted_index \<Rightarrow> token \<Rightarrow> string \<times> document_token_data \<Rightarrow> real" where
  "champion_score ix t td = idf t * tf (snd td) / doc_vector_length ix (fst td)"

subsection \<open>Example collections\<close>

text \<open>
  Two documents with the same title and content: every term has idf \<open>log2 (2 / 2) = 0\<close>.
\<close>

definition twin_docs :: "document list" where
  "twin_docs =
     [\<lparr>doc_id = ''d1'', title = ''a'', url = ''u1'', content = ''b c'', date = Some ''x'',
       tags = None\<rparr>,
      \<lparr>doc_id = ''d2'', title = ''a'', url = ''u2'', content = ''b c'', date = Some ''x'',
       tags = None\<rparr>]"

definition twin_index :: positional_inverted_index where
  "twin_index =
     \<lparr>tokens =
        [(''a'', \<lparr>idf = 0, linear_df = 2,
            positional_list =
              [(''d1'', \<lparr>tf = 2, linear_tf = 1, positions = [- 1], weight = 2\<rparr>),
               (''d2'', \<lparr>tf = 2, linear_tf = 1, positions = [- 1], weight = 2\<rparr>)],
            champions_list = None\<rparr>),
         (''b'', \<lparr>idf = 0, linear_df = 2,
            positional_list =
              [(''d1'', \<lparr>tf = 1, linear_tf = 1, positions = [0], weight = 1\<rparr>),
               (''d2'', \<lparr>tf = 1, linear_tf = 1, positions = [0], weight = 1\<rparr>)],
            champions_list = None\<rparr>),
         (''c'', \<lparr>idf = 0, linear_df = 2,
            positional_list =
              [(''d1'', \<lparr>tf = 1, linear_tf = 1, positions = [1], weight = 1\<rparr>),
               (''d2'', \<lparr>tf = 1, linear_tf = 1, positions = [1], weight = 1\<rparr>)],
            champions_list = None\<rparr>)]\<rparr>"

definition twin_ir :: irdata where
  "twin_ir =
     \<lparr>pii = twin_index,
      docs =
        [(''d1'', \<lparr>doc_id = ''d1'', title = ''a'', url = ''u1'', content = [], date = Some ''x'',
            tags = None\<rparr>),
         (''d2'', \<lparr>doc_id = ''d2'', title = ''a'', url = ''u2'', content = [], date = Some ''x'',
            tags = None\<rparr>)],
      max_doc_date = datetime_min, min_doc_date = datetime_max,
      doc_lengths = [(''d1'', 1), (''d2'', 1)]\<rparr>"

text \<open>One document with a title only and one with content only: both terms have idf 1.\<close>

definition title_docs :: "document list" where
  "title_docs =
     [\<lparr>doc_id = ''d1'', title = ''a'', url = ''u1'', content = [], date = Some ''x'',
       tags = None\<rparr>,
      \<lparr>doc_id = ''d2'', title = [], url = ''u2'', content = ''b'', date = Some ''x'',
       tags = None\<rparr>]"

definition title_index :: positional_inverted_index where
  "title_index =
     \<lparr>tokens =
        [(''a'', \<lparr>idf = 1, linear_df = 1,
            positional_list =
              [(''d1'', \<lparr>tf = 2, linear_tf = 1, positions = [- 1], weight = 2\<rparr>)],
            champions_list = None\<rparr>),
         (''b'', \<lparr>idf = 1, linear_df = 1,
            positional_list =
              [(''d2'', \<lparr>tf = 1, linear_tf = 1, positions = [0], weight = 1\<rparr>)],
            champions_list = None\<rparr>)]\<rparr>"

definition title_ir :: irdata where
  "title_ir =
     \<lparr>pii = title_index,
      docs =
        [(''d1'', \<lparr>doc_id = ''d1'', title = ''a'', url = ''u1'', content = [], date = Some ''x'',
            tags = None\<rparr>),
         (''d2'', \<lparr>doc_id = ''d2'', title = [], url = ''u2'', content = [], date = Some ''x'',
            tags = None\<rparr>)],
      max_doc_date = datetime_min, min_doc_date = datetime_max,
      doc_lengths = [(''d1'', 2), (''d2'', 1)]\<rparr>"




text \<open>A source file with one document, as \<^verbatim>\<open>json.load\<close> returns it.\<close>

definition one_doc_source :: json where
  "one_doc_source =
     JObject [(''d1'', JObject [(''title'', JString ''a''), (''url'', JString ''u1''),
                (''content'', JString ''b c''), (''date'', JString ''x''), (''tags'', JNull)])]"

subsection \<open>Phrase entries as the specification describes them\<close>

text \<open>
  The positions that the lookup \<^verbatim>\<open>pii[term][doc_id]\<close> yields, and whether it yields any entry.
\<close>

definition has_entry :: "positional_inverted_index \<Rightarrow> string \<Rightarrow> string \<Rightarrow> bool" where
  "has_entry ix d term = (case lookup_positions ix term d of Inr ps \<Rightarrow> True | Inl e \<Rightarrow> False)"

definition entry_positions :: "positional_inverted_index \<Rightarrow> string \<Rightarrow> string \<Rightarrow> int list" where
  "entry_positions ix d term = (case lookup_positions ix term d of Inr ps \<Rightarrow> ps | Inl e \<Rightarrow> [])"

text \<open>
  The length of the unbroken run that starts at position \<open>p\<close> of the starting term: 1 for the
  start itself, plus the number of following terms, in order, that occur at \<open>p + 1\<close>,
  \<open>p + 2\<close>, ... in the document.
\<close>

definition run_length :: "positional_inverted_index \<Rightarrow> string \<Rightarrow> string list \<Rightarrow> int \<Rightarrow> int" where
  "run_length ix d following p =
     1 + int (length (takeWhile (\<lambda>(j, term). p + 1 + int j \<in> set (entry_positions ix d term))
                        (enumerate 0 following)))"

text \<open>The best run over the real start positions; 0 when there is none.\<close>

definition best_run :: "positional_inverted_index \<Rightarrow> string \<Rightarrow> string list \<Rightarrow> int list \<Rightarrow> int" where
  "best_run ix d following ps =
     Max (insert 0 (run_length ix d following ` set (filter (\<lambda>p. p \<noteq> - 1) ps)))"

definition phrase_multiplier :: "int \<Rightarrow> nat \<Rightarrow> real option" where
  "phrase_multiplier best l =
     (if best > 1 then Some (1 + PHRASE_QUERY_WEIGHT * (real_of_int best / real l)) else None)"

text \<open>
  The phrase entry of a document as claim C5 states it: the starting term is the first query
  term with a real (not \<open>- 1\<close>) position for the document.
\<close>

definition has_real_entry :: "positional_inverted_index \<Rightarrow> string \<Rightarrow> string \<Rightarrow> bool" where
  "has_real_entry ix d term = (\<exists>p \<in> set (entry_positions ix d term). p \<noteq> - 1)"

definition claimed_phrase_entry ::
    "positional_inverted_index \<Rightarrow> string list \<Rightarrow> string \<Rightarrow> real option" where
  "claimed_phrase_entry ix terms d =
     (case dropWhile (\<lambda>t. \<not> has_real_entry ix d t) terms of
        [] \<Rightarrow> None
      | start # following \<Rightarrow>
          phrase_multiplier (best_run ix d following (entry_positions ix d start))
            (length terms))"

text \<open>
  The phrase entry of a document as the code computes it: the starting term is the first
  query term, the last one excepted, with any entry for the document.
\<close>

definition phrase_entry ::
    "positional_inverted_index \<Rightarrow> string list \<Rightarrow> string \<Rightarrow> real option" where
  "phrase_entry ix terms d =
     (case dropWhile (\<lambda>t. \<not> has_entry ix d t) (butlast terms) of
        [] \<Rightarrow> None
      | start # rest \<Rightarrow>
          phrase_multiplier (best_run ix d (rest @ [last terms]) (entry_positions ix d start))
            (length terms))"

section \<open>Properties\<close>

subsection \<open>Term and document frequency weights\<close>

lemma calculate_tf_nonneg_count:
  "0 \<le> n \<Longrightarrow> calculate_tf n = Inr (if n = 0 then 0 else 1 + log 2 (real_of_int n))"
  by (simp add: calculate_tf_def log2_def)

lemma calculate_idf_pos:
  "0 < N \<Longrightarrow> 0 \<le> d \<Longrightarrow>
   calculate_idf d N = Inr (if d = 0 then 0 else log 2 (real_of_int N / real_of_int d))"
proof (cases "d = 0")
  case False
  assume "0 < N" "0 \<le> d"
  then have "0 < real_of_int N / real_of_int d" using False by simp
  then show ?thesis using False by (simp add: calculate_idf_def log2_def not_le)
qed (simp add: calculate_idf_def)

text \<open>
  Claim C9, as stated, also asks that idf does not increase between the counts 0 and 1. With
  four documents it is 0 at count 0 and 2 at count 1.
\<close>

theorem idf_increases_from_zero:
  "calculate_idf 0 4 = Inr 0 \<and> calculate_idf 1 4 = Inr 2 \<and> (0::real) < 2"
proof -
  have "log 2 4 = (2::real)"
    using log_pow_cancel[of 2 2] by simp
  then show ?thesis by (simp add: calculate_idf_def log2_def)
qed

text \<open>
  Claim C9, amended: over non-negative counts \<open>calculate_tf\<close> is non-decreasing, also after
  scaling by a fixed non-negative weight factor; for a positive collection size
  \<open>calculate_idf\<close> is non-increasing over the counts from 1 upwards; each function is exactly 0
  at count 0.
\<close>

theorem tf_idf_monotone:
  assumes "0 \<le> m" and "m \<le> n" and "0 \<le> w" and "1 \<le> d" and "d \<le> d'" and "0 < N"
  shows "(\<exists>a b. calculate_tf m = Inr a \<and> calculate_tf n = Inr b \<and> a \<le> b \<and> a * w \<le> b * w) \<and>
         (\<exists>a b. calculate_idf d N = Inr a \<and> calculate_idf d' N = Inr b \<and> b \<le> a) \<and>
         calculate_tf 0 = Inr 0 \<and> calculate_idf 0 N = Inr 0"
proof -
  let ?t = "\<lambda>k::int. if k = 0 then 0 else 1 + log 2 (real_of_int k)"
  have tf_le: "?t m \<le> ?t n"
  proof (cases "m = 0")
    case True
    show ?thesis
    proof (cases "n = 0")
      case False
      then have "1 \<le> real_of_int n" using assms(1,2) by linarith
      then have "0 \<le> log 2 (real_of_int n)" by simp
      then show ?thesis using True by simp
    qed (simp add: True)
  next
    case False
    then have "0 < real_of_int m" "0 < real_of_int n" "real_of_int m \<le> real_of_int n"
      using assms(1,2) by auto
    then have "log 2 (real_of_int m) \<le> log 2 (real_of_int n)" by simp
    then show ?thesis using False assms(1,2) by auto
  qed
  have tf: "\<exists>a b. calculate_tf m = Inr a \<and> calculate_tf n = Inr b \<and> a \<le> b \<and> a * w \<le> b * w"
    using tf_le assms(1,2,3) calculate_tf_nonneg_count[of m] calculate_tf_nonneg_count[of n]
    by (auto intro: mult_right_mono)
  have pos: "0 < real_of_int d" "0 < real_of_int d'" "0 < real_of_int N"
    using assms(4,5,6) by auto
  have "real_of_int N / real_of_int d' \<le> real_of_int N / real_of_int d"
    using pos assms(5) by (simp add: frac_le)
  moreover have "0 < real_of_int N / real_of_int d'" using pos by simp
  ultimately have "log 2 (real_of_int N / real_of_int d') \<le> log 2 (real_of_int N / real_of_int d)"
    using pos by (subst log_le_cancel_iff) auto
  then have idf: "\<exists>a b. calculate_idf d N = Inr a \<and> calculate_idf d' N = Inr b \<and> b \<le> a"
    using calculate_idf_pos[of N d] calculate_idf_pos[of N d'] assms(4,5,6) by auto
  show ?thesis using tf idf by (simp add: calculate_tf_def calculate_idf_def)
qed

theorem tf_idf_monotone_witness:
  "(\<exists>a b. calculate_tf 1 = Inr a \<and> calculate_tf 2 = Inr b \<and> a \<le> b \<and> a * 2 \<le> b * 2) \<and>
   (\<exists>a b. calculate_idf 1 4 = Inr a \<and> calculate_idf 2 4 = Inr b \<and> b \<le> a) \<and>
   calculate_tf 0 = Inr 0 \<and> calculate_idf 0 4 = Inr 0"
  using tf_idf_monotone[of 1 2 2 1 2 4] by simp

subsection \<open>The cache round trip\<close>

lemma traverse_map_Inr:
  "(\<And>x. x \<in> set xs \<Longrightarrow> f (g x) = Inr (h x)) \<Longrightarrow> traverse f (map g xs) = Inr (map h xs)"
  by (induction xs) auto

lemma as_int_list_JInt: "traverse as_int (map JInt ps) = Inr ps"
  using traverse_map_Inr[of ps as_int JInt "\<lambda>x. x"] by simp

lemma decode_encode_posting:
  "decode_posting (encode_posting p) = Inr (fst p, (snd p)\<lparr>weight := 1\<rparr>)"
  by (simp add: decode_posting_def encode_posting_def bind_err_def as_int_list_JInt)

lemma decode_encode_token:
  "decode_token (encode_token p) =
     Inr (fst p, \<lparr>idf = idf (snd p), linear_df = linear_df (snd p),
                  positional_list = map (\<lambda>q. (fst q, (snd q)\<lparr>weight := 1\<rparr>)) (positional_list (snd p)),
                  champions_list = None\<rparr>)"
  using traverse_map_Inr[of "positional_list (snd p)" decode_posting encode_posting
      "\<lambda>q. (fst q, (snd q)\<lparr>weight := 1\<rparr>)"]
  by (simp add: decode_token_def encode_token_def bind_err_def decode_encode_posting)

text \<open>
  Claim C3: reading the cache written for an index yields an index with the same terms in the
  same order, the same idf and linear_df for every term, and the same document id, tf,
  linear_tf and positions for every posting, in the same posting order. The reader copies
  the stored tf and idf; it computes nothing.
\<close>

theorem cache_round_trip:
  "\<exists>ix'. read_from_cache (write_cache ix file fs) file = Inr (Some ix') \<and>
     map fst (tokens ix') = map fst (tokens ix) \<and>
     map (\<lambda>p. (idf (snd p), linear_df (snd p))) (tokens ix') =
       map (\<lambda>p. (idf (snd p), linear_df (snd p))) (tokens ix) \<and>
     map (\<lambda>p. map (\<lambda>q. (fst q, tf (snd q), linear_tf (snd q), positions (snd q)))
                 (positional_list (snd p))) (tokens ix') =
       map (\<lambda>p. map (\<lambda>q. (fst q, tf (snd q), linear_tf (snd q), positions (snd q)))
                 (positional_list (snd p))) (tokens ix)"
proof -
  let ?h = "\<lambda>p. (fst p, \<lparr>idf = idf (snd p), linear_df = linear_df (snd p),
                  positional_list = map (\<lambda>q. (fst q, (snd q)\<lparr>weight := 1\<rparr>)) (positional_list (snd p)),
                  champions_list = None\<rparr>)"
  have "traverse decode_token (map encode_token (tokens ix)) = Inr (map ?h (tokens ix))"
    by (rule traverse_map_Inr) (rule decode_encode_token)
  then have "read_from_cache (write_cache ix file fs) file = Inr (Some \<lparr>tokens = map ?h (tokens ix)\<rparr>)"
    by (simp add: read_from_cache_def write_cache_def json_load_def bind_err_def)
  then show ?thesis by (simp add: comp_def)
qed

subsection \<open>Lookups on an empty sequence\<close>

lemmas build_defs =
  create_query_pii_def create_pii_def index_document_def example_env_def example_strptime_def
  get_weighted_tokens_def get_tokens_def add_token_def Token_add_position_def Token_init_def
  DocumentTokenData_add_position_def DocumentTokenData_init_def finalize_def
  Token_finalize_def calculate_idf_def log2_def update_tf_def calculate_tf_def
  TITLE_TOKEN_WEIGHT_def TAG_TOKEN_WEIGHT_def

lemmas lookup_defs =
  getitem_def Token_getitem_def get_search_scope_list_def lookup_positions_def
  binary_search_tuple_def py_index_def bind_err_def

text \<open>
  Claim C7: on an empty sequence the lookup raises \<^verbatim>\<open>IndexError\<close>, not \<^verbatim>\<open>KeyError\<close>. The callers
  catch \<^verbatim>\<open>KeyError\<close> only, so the error escapes: from the index lookup, from a token whose
  champions list is empty, from \<^verbatim>\<open>get_document_frequency\<close>, and from \<^verbatim>\<open>search\<close> on the collection
  created from a source file without documents.
\<close>

theorem lookup_on_empty_raises_IndexError:
  "binary_search_tuple ([] :: (string \<times> token) list) x = Inl IndexError \<and>
   getitem \<lparr>tokens = []\<rparr> x = Inl IndexError \<and>
   Token_getitem (t\<lparr>champions_list := Some []\<rparr>) d = Inl IndexError \<and>
   get_document_frequency (ir\<lparr>pii := \<lparr>tokens = []\<rparr>\<rparr>) x = Inl IndexError \<and>
   bind_err (fst (create example_env (Map.empty(''f'' \<mapsto> JSON (JObject []))) ''f'' False None))
     (\<lambda>ir. search example_env ir ''x'' 10 False False cosine_score) = Inl IndexError"
proof -
  have c: "fst (create example_env (Map.empty(''f'' \<mapsto> JSON (JObject []))) ''f'' False None) =
      Inr \<lparr>pii = \<lparr>tokens = []\<rparr>, docs = [], max_doc_date = datetime_min,
           min_doc_date = datetime_max, doc_lengths = []\<rparr>"
    by (simp add: create_def load_documents_def json_load_def bind_err_def create_pii_def
        finalize_def IRData_init_def compute_doc_lengths_def generate_champions_list_def)
  have q: "create_query_pii example_env ''x'' =
      Inr \<lparr>tokens = [(''x'', \<lparr>idf = 0, linear_df = 1,
             positional_list = [(''0'', \<lparr>tf = 1, linear_tf = 1, positions = [0], weight = 1\<rparr>)],
             champions_list = None\<rparr>)]\<rparr>"
    by (simp add: build_defs)
  have s: "bind_err (fst (create example_env (Map.empty(''f'' \<mapsto> JSON (JObject []))) ''f'' False None))
     (\<lambda>ir. search example_env ir ''x'' 10 False False cosine_score) = Inl IndexError"
    unfolding c by (simp add: q search_def cosine_score_def lookup_defs)
  show ?thesis
    using s by (simp add: get_document_frequency_def lookup_defs)
qed

subsection \<open>Queries without terms\<close>

lemma create_query_pii_no_terms:
  assumes "tokenize E [] = []" and "tokenize E query = []"
  shows "create_query_pii E query = Inr \<lparr>tokens = []\<rparr>"
  using assms
  by (simp add: create_query_pii_def create_pii_def index_document_def get_weighted_tokens_def
      get_tokens_def finalize_def)

text \<open>
  Claim C10: when the tokenizer yields no terms for the query text (and none for the empty
  title of the query document), the query index has no terms, \<open>cosine_score\<close> returns the
  empty score map and \<open>search\<close> returns the empty list, for every collection and every \<open>k\<close>.
\<close>

theorem search_without_terms:
  assumes "tokenize E [] = []" and "tokenize E query = []"
  shows "create_query_pii E query = Inr \<lparr>tokens = []\<rparr> \<and>
         cosine_score (pii ir) \<lparr>tokens = []\<rparr> = Inr [] \<and>
         search E ir query k with_date phrase_query_score cosine_score = Inr []"
  using create_query_pii_no_terms[OF assms]
  by (simp add: search_def cosine_score_def phrase_query_def bind_err_def nlargest_def)

theorem search_without_terms_witness:
  "tokenize example_env [] = [] \<and> tokenize example_env ''  '' = [] \<and>
   create_query_pii example_env ''  '' = Inr \<lparr>tokens = []\<rparr> \<and>
   cosine_score \<lparr>tokens = []\<rparr> \<lparr>tokens = []\<rparr> = Inr [] \<and>
   search example_env \<lparr>pii = \<lparr>tokens = []\<rparr>, docs = [], max_doc_date = datetime_min,
      min_doc_date = datetime_max, doc_lengths = []\<rparr> ''  '' 10 True True cosine_score = Inr []"
proof -
  have h: "tokenize example_env [] = []" "tokenize example_env ''  '' = []"
    by (simp_all add: example_env_def)
  show ?thesis
    using h search_without_terms[OF h, of "\<lparr>pii = \<lparr>tokens = []\<rparr>, docs = [], max_doc_date = datetime_min,
      min_doc_date = datetime_max, doc_lengths = []\<rparr>" 10 True True]
    by simp
qed

subsection \<open>Cache miss and cache failure in \<open>create\<close>\<close>

text \<open>
  When the cache file is absent, \<open>read_from_cache\<close> returns \<^verbatim>\<open>None\<close>, and \<open>create\<close> returns what
  it returns without the cache and writes the cache of the index it built.
\<close>

lemma create_cache_miss:
  assumes "fs (file @ ''.cache'') = None"
  shows "read_from_cache fs file = Inr None"
    and "fst (create E fs file True r) = fst (create E fs file False r)"
    and "load_documents fs file = Inr ds \<Longrightarrow> create_pii E ds = Inr ix \<Longrightarrow>
         snd (create E fs file True r) = write_cache ix file fs"
proof -
  show miss: "read_from_cache fs file = Inr None"
    using assms by (simp add: read_from_cache_def json_load_def)
  show "fst (create E fs file True r) = fst (create E fs file False r)"
    by (auto simp: miss create_def Let_def split: sum.splits option.splits)
  show "load_documents fs file = Inr ds \<Longrightarrow> create_pii E ds = Inr ix \<Longrightarrow>
         snd (create E fs file True r) = write_cache ix file fs"
    by (auto simp: miss create_def Let_def split: sum.splits option.splits)
qed

text \<open>A cache file that is not JSON makes \<open>create\<close> raise, whatever the source holds.\<close>

lemma create_not_json_cache:
  assumes "fs (file @ ''.cache'') = Some NotJSON" and "load_documents fs file = Inr ds"
  shows "create E fs file True r = (Inl JSONDecodeError, fs)"
  using assms by (simp add: create_def read_from_cache_def json_load_def)

text \<open>
  Claim C8: the first half holds (lemma \<open>create_cache_miss\<close>); the second half, that
  \<open>create\<close> rebuilds from the source when the cache is malformed, fails on the code. With a
  source file of one document, \<open>create\<close> without the cache builds the collection. With a cache
  file that is not JSON it raises \<^verbatim>\<open>JSONDecodeError\<close>; with a cache that is JSON but whose
  only term record lacks every key it raises \<^verbatim>\<open>KeyError\<close>; with the cache \<^verbatim>\<open>null\<close> it raises
  \<^verbatim>\<open>TypeError\<close>. In each case the files stay as they are and nothing is rebuilt.
\<close>

theorem create_crashes_on_malformed_cache:
  "fst (create example_env
     (Map.empty(''f'' \<mapsto> JSON one_doc_source, ''f.cache'' \<mapsto> NotJSON)) ''f'' False None) =
     Inr \<lparr>pii =
           \<lparr>tokens =
              [(''a'', \<lparr>idf = 0, linear_df = 1,
                  positional_list =
                    [(''d1'', \<lparr>tf = 2, linear_tf = 1, positions = [- 1], weight = 2\<rparr>)],
                  champions_list = None\<rparr>),
               (''b'', \<lparr>idf = 0, linear_df = 1,
                  positional_list =
                    [(''d1'', \<lparr>tf = 1, linear_tf = 1, positions = [0], weight = 1\<rparr>)],
                  champions_list = None\<rparr>),
               (''c'', \<lparr>idf = 0, linear_df = 1,
                  positional_list =
                    [(''d1'', \<lparr>tf = 1, linear_tf = 1, positions = [1], weight = 1\<rparr>)],
                  champions_list = None\<rparr>)]\<rparr>,
          docs =
            [(''d1'', \<lparr>doc_id = ''d1'', title = ''a'', url = ''u1'', content = [],
                date = Some ''x'', tags = None\<rparr>)],
          max_doc_date = datetime_min, min_doc_date = datetime_max,
          doc_lengths = [(''d1'', 1)]\<rparr> \<and>
   create example_env
     (Map.empty(''f'' \<mapsto> JSON one_doc_source, ''f.cache'' \<mapsto> NotJSON)) ''f'' True None =
     (Inl JSONDecodeError, Map.empty(''f'' \<mapsto> JSON one_doc_source, ''f.cache'' \<mapsto> NotJSON)) \<and>
   create example_env
     (Map.empty(''f'' \<mapsto> JSON one_doc_source, ''f.cache'' \<mapsto> JSON (JArray [JObject []])))
     ''f'' True None =
     (Inl KeyError,
      Map.empty(''f'' \<mapsto> JSON one_doc_source, ''f.cache'' \<mapsto> JSON (JArray [JObject []]))) \<and>
   create example_env
     (Map.empty(''f'' \<mapsto> JSON one_doc_source, ''f.cache'' \<mapsto> JSON JNull)) ''f'' True None =
     (Inl TypeError, Map.empty(''f'' \<mapsto> JSON one_doc_source, ''f.cache'' \<mapsto> JSON JNull))"
proof -
  have c1: "create example_env
     (Map.empty(''f'' \<mapsto> JSON one_doc_source, ''f.cache'' \<mapsto> NotJSON)) ''f'' True None =
     (Inl JSONDecodeError, Map.empty(''f'' \<mapsto> JSON one_doc_source, ''f.cache'' \<mapsto> NotJSON))"
    by (simp add: create_def load_documents_def load_document_def json_load_def bind_err_def
        read_from_cache_def one_doc_source_def)
  have c2: "create example_env
     (Map.empty(''f'' \<mapsto> JSON one_doc_source, ''f.cache'' \<mapsto> JSON (JArray [JObject []])))
     ''f'' True None =
     (Inl KeyError,
      Map.empty(''f'' \<mapsto> JSON one_doc_source, ''f.cache'' \<mapsto> JSON (JArray [JObject []])))"
    by (simp add: create_def load_documents_def load_document_def json_load_def bind_err_def
        read_from_cache_def decode_token_def one_doc_source_def)
  have c3: "create example_env
     (Map.empty(''f'' \<mapsto> JSON one_doc_source, ''f.cache'' \<mapsto> JSON JNull)) ''f'' True None =
     (Inl TypeError, Map.empty(''f'' \<mapsto> JSON one_doc_source, ''f.cache'' \<mapsto> JSON JNull))"
    by (simp add: create_def load_documents_def load_document_def json_load_def bind_err_def
        read_from_cache_def one_doc_source_def)
  have build: "fst (create example_env
     (Map.empty(''f'' \<mapsto> JSON one_doc_source, ''f.cache'' \<mapsto> NotJSON)) ''f'' False None) =
     Inr \<lparr>pii =
           \<lparr>tokens =
              [(''a'', \<lparr>idf = 0, linear_df = 1,
                  positional_list =
                    [(''d1'', \<lparr>tf = 2, linear_tf = 1, positions = [- 1], weight = 2\<rparr>)],
                  champions_list = None\<rparr>),
               (''b'', \<lparr>idf = 0, linear_df = 1,
                  positional_list =
                    [(''d1'', \<lparr>tf = 1, linear_tf = 1, positions = [0], weight = 1\<rparr>)],
                  champions_list = None\<rparr>),
               (''c'', \<lparr>idf = 0, linear_df = 1,
                  positional_list =
                    [(''d1'', \<lparr>tf = 1, linear_tf = 1, positions = [1], weight = 1\<rparr>)],
                  champions_list = None\<rparr>)]\<rparr>,
          docs =
            [(''d1'', \<lparr>doc_id = ''d1'', title = ''a'', url = ''u1'', content = [],
                date = Some ''x'', tags = None\<rparr>)],
          max_doc_date = datetime_min, min_doc_date = datetime_max,
          doc_lengths = [(''d1'', 1)]\<rparr>"
    by (simp add: create_def load_documents_def load_document_def json_load_def bind_err_def
        build_defs IRData_init_def compute_doc_lengths_def dict_add_def parse_date_def
        generate_champions_list_def one_doc_source_def)
  show ?thesis
    unfolding c1 c2 c3 using build by simp
qed

subsection \<open>Finalizing a built index\<close>

lemma traverse_Inr_map:
  "(\<And>x. x \<in> set xs \<Longrightarrow> f x = Inr (h x)) \<Longrightarrow> traverse f xs = Inr (map h xs)"
  by (induction xs) auto











subsection \<open>Document vector lengths\<close>

lemma map_of_dict_add:
  "map_of (dict_add k v acc) d = (if d = k then Some (dict_get acc k 0 + v) else map_of acc d)"
  by (auto simp: dict_add_def dict_get_def update_conv' split: option.splits)

lemma map_of_fold_dict_add:
  "map_of (fold (\<lambda>q. dict_add (fst q) (g q)) qs acc) d =
     (if d \<in> fst ` set qs \<or> map_of acc d \<noteq> None
      then Some (dict_get acc d 0 + (\<Sum>q\<leftarrow>filter (\<lambda>q. fst q = d) qs. g q))
      else None)"
proof (induction qs arbitrary: acc)
  case Nil
  then show ?case by (auto simp: dict_get_def)
next
  case (Cons q qs)
  show ?case
    by (simp add: Cons.IH map_of_dict_add) (auto simp: dict_get_def map_of_dict_add)
qed

lemma sum_list_filter_absent:
  "d \<notin> fst ` set qs \<Longrightarrow> (\<Sum>q\<leftarrow>filter (\<lambda>q. fst q = d) qs. g q) = 0"
  by (induction qs) auto

lemma map_of_nested_fold_dict_add:
  "map_of (fold (\<lambda>p. fold (\<lambda>q. dict_add (fst q) (g p q)) (f p)) ps acc) d =
     (if d \<in> (\<Union>p \<in> set ps. fst ` set (f p)) \<or> map_of acc d \<noteq> None
      then Some (dict_get acc d 0 + (\<Sum>p\<leftarrow>ps. \<Sum>q\<leftarrow>filter (\<lambda>q. fst q = d) (f p). g p q))
      else None)"
proof (induction ps arbitrary: acc)
  case Nil
  then show ?case by (auto simp: dict_get_def)
next
  case (Cons p ps)
  show ?case
    by (simp add: Cons.IH map_of_fold_dict_add)
      (auto simp: dict_get_def map_of_fold_dict_add sum_list_filter_absent)
qed

lemma map_of_compute_doc_lengths:
  "map_of (compute_doc_lengths ix) d =
     (if d \<in> posting_ids ix then Some (doc_vector_length ix d) else None)"
proof -
  have "compute_doc_lengths ix =
      map (\<lambda>(d, v). (d, max 1 (sqrt v)))
        (fold (\<lambda>p. fold (\<lambda>q. dict_add (fst q) ((tf (snd q) * idf (snd p))\<^sup>2))
                 (positional_list (snd p))) (tokens ix) [])"
    unfolding compute_doc_lengths_def case_prod_unfold by (rule refl)
  then show ?thesis
    by (simp add: map_of_map map_of_nested_fold_dict_add posting_ids_def doc_vector_length_def
        dict_get_def)
qed

lemma doc_vector_length_pos: "0 < doc_vector_length ix d"
  by (simp add: doc_vector_length_def)

subsection \<open>Champions lists\<close>

lemma IRData_init_fields:
  "IRData_init E ix ds = Inr ir \<Longrightarrow> pii ir = ix \<and> doc_lengths ir = compute_doc_lengths ix"
  by (auto simp: IRData_init_def split: sum.splits prod.splits)

lemma tf_idf_func_ok:
  assumes "doc_lengths ir = compute_doc_lengths ix" and "p \<in> set (tokens ix)"
    and "td \<in> set (positional_list (snd p))"
  shows "tf_idf_func ir t td = Inr (champion_score ix t td)"
proof -
  have "fst td \<in> posting_ids ix"
    using assms(2,3) by (auto simp: posting_ids_def)
  then show ?thesis
    using doc_vector_length_pos[of ix "fst td"]
    by (simp add: tf_idf_func_def assms(1) map_of_compute_doc_lengths py_div_def
        champion_score_def)
qed

lemma insort_key_map:
  "insort_key g (h x) (map h ys) = map h (insort_key (\<lambda>y. g (h y)) x ys)"
  by (induction ys) auto

lemma sort_key_map: "sort_key g (map h xs) = map h (sort_key (\<lambda>y. g (h y)) xs)"
  by (induction xs) (auto simp: insort_key_map)

lemma sort_by_computed_keys:
  "map snd (sort_key (\<lambda>p. - fst p) (zip (map f xs) xs)) = sort_key (\<lambda>x. - f x) xs"
proof -
  have "zip (map f xs) xs = map (\<lambda>x. (f x, x)) xs"
    by (induction xs) auto
  then show ?thesis by (simp add: sort_key_map comp_def)
qed

lemma champions_of_ok:
  assumes "doc_lengths ir = compute_doc_lengths ix" and "p \<in> set (tokens ix)"
  shows "champions_of ir r (snd p) =
     Inr ((snd p)\<lparr>champions_list :=
        Some (sort_key fst (py_take r
           (sort_key (\<lambda>td. - champion_score ix (snd p) td) (positional_list (snd p)))))\<rparr>)"
proof -
  have "traverse (tf_idf_func ir (snd p)) (positional_list (snd p)) =
      Inr (map (champion_score ix (snd p)) (positional_list (snd p)))"
    by (intro traverse_Inr_map tf_idf_func_ok[OF assms])
  then show ?thesis
    by (simp add: champions_of_def sort_by_computed_keys)
qed

lemma py_take_conv: "\<exists>m. py_take r xs = take m xs \<and> (0 \<le> r \<longrightarrow> m = nat r)"
  by (auto simp: py_take_def)

lemma top_of_sorted:
  fixes f :: "'a \<Rightarrow> real"
  assumes "c = sort_key k (py_take r (sort_key (\<lambda>x. - f x) xs))"
  shows "(0 \<le> r \<longrightarrow> int (length c) \<le> r) \<and> mset c \<subseteq># mset xs \<and>
         (\<forall>x \<in> set c. \<forall>y \<in># mset xs - mset c. f y \<le> f x)"
proof -
  let ?s = "sort_key (\<lambda>x. - f x) xs"
  obtain m where m: "py_take r ?s = take m ?s" "0 \<le> r \<longrightarrow> m = nat r"
    using py_take_conv by blast
  have c: "mset c = mset (take m ?s)" "set c = set (take m ?s)" "length c = length (take m ?s)"
    by (simp_all add: assms m(1))
  have split: "mset xs = mset (take m ?s) + mset (drop m ?s)"
    by (metis append_take_drop_id mset_append mset_sort)
  have len: "0 \<le> r \<longrightarrow> int (length c) \<le> r"
    using m(2) c(3) by auto
  have sub: "mset c \<subseteq># mset xs"
    unfolding c(1) split by simp
  have "sorted (map (\<lambda>x. - f x) ?s)"
    by (rule sorted_sort_key)
  then have "sorted (map (\<lambda>x. - f x) (take m ?s @ drop m ?s))"
    by simp
  then have ord: "\<forall>x \<in> set (take m ?s). \<forall>y \<in> set (drop m ?s). f y \<le> f x"
    by (auto simp: sorted_append simp del: append_take_drop_id)
  have rest: "mset xs - mset c = mset (drop m ?s)"
    unfolding c(1) split by simp
  show ?thesis
    using len sub ord unfolding rest c(2) by auto
qed

text \<open>
  Claim C6, amended: for a collection built by \<open>IRData_init\<close>, generation with \<^verbatim>\<open>r = None\<close>
  returns the collection unchanged. With an integer \<open>r\<close> it returns, and it keeps the terms,
  their order and their full postings; the champions list of every token is the list of its
  top postings by \<open>idf * tf / document_vector_length\<close> (a stable sort, larger scores first, cut
  by the slice \<^verbatim>\<open>[:r]\<close>), sorted again by document id; it is a sub-multiset of the full
  postings, ascending by document id, no posting left out scores higher than a posting kept,
  and for \<open>r \<ge> 0\<close> it has at most \<open>r\<close> entries.
\<close>

theorem champions_lists:
  assumes "IRData_init E ix ds = Inr ir"
  shows "generate_champions_list ir None = Inr ir \<and>
    (\<exists>ir'. generate_champions_list ir (Some r) = Inr ir' \<and>
       list_all2 (\<lambda>p p'. fst p' = fst p \<and> positional_list (snd p') = positional_list (snd p) \<and>
           (\<exists>c. champions_list (snd p') = Some c \<and>
              c = sort_key fst (py_take r
                    (sort_key (\<lambda>td. - champion_score ix (snd p) td) (positional_list (snd p)))) \<and>
              (0 \<le> r \<longrightarrow> int (length c) \<le> r) \<and>
              mset c \<subseteq># mset (positional_list (snd p)) \<and>
              sorted (map fst c) \<and>
              (\<forall>x \<in> set c. \<forall>y \<in># mset (positional_list (snd p)) - mset c.
                 champion_score ix (snd p) y \<le> champion_score ix (snd p) x)))
         (tokens ix) (tokens (pii ir')))"
proof -
  let ?c = "\<lambda>p. sort_key fst (py_take r
             (sort_key (\<lambda>td. - champion_score ix (snd p) td) (positional_list (snd p))))"
  let ?h = "\<lambda>p. (fst p, (snd p)\<lparr>champions_list := Some (?c p)\<rparr>)"
  have f: "pii ir = ix" "doc_lengths ir = compute_doc_lengths ix"
    using IRData_init_fields[OF assms] by simp_all
  have "traverse (\<lambda>(s, t). map_sum id (Pair s) (champions_of ir r t)) (tokens ix) =
      Inr (map ?h (tokens ix))"
    by (intro traverse_Inr_map) (simp add: case_prod_beta champions_of_ok[OF f(2)])
  then have gen: "generate_champions_list ir (Some r) = Inr (ir\<lparr>pii := \<lparr>tokens = map ?h (tokens ix)\<rparr>\<rparr>)"
    by (simp add: generate_champions_list_def f(1))
  have each: "(0 \<le> r \<longrightarrow> int (length (?c p)) \<le> r) \<and>
      mset (?c p) \<subseteq># mset (positional_list (snd p)) \<and>
      (\<forall>x \<in> set (?c p). \<forall>y \<in># mset (positional_list (snd p)) - mset (?c p).
         champion_score ix (snd p) y \<le> champion_score ix (snd p) x)" for p
    by (rule top_of_sorted) (rule refl)
  have "list_all2 (\<lambda>p p'. fst p' = fst p \<and> positional_list (snd p') = positional_list (snd p) \<and>
           (\<exists>c. champions_list (snd p') = Some c \<and> c = ?c p \<and>
              (0 \<le> r \<longrightarrow> int (length c) \<le> r) \<and>
              mset c \<subseteq># mset (positional_list (snd p)) \<and>
              sorted (map fst c) \<and>
              (\<forall>x \<in> set c. \<forall>y \<in># mset (positional_list (snd p)) - mset c.
                 champion_score ix (snd p) y \<le> champion_score ix (snd p) x)))
         (tokens ix) (map ?h (tokens ix))"
    unfolding list_all2_map2
    by (rule list_all2_refl) (use each in \<open>simp add: sorted_sort_key\<close>)
  then show ?thesis
    using gen by (simp add: generate_champions_list_def)
qed

subsection \<open>The heap and the ranking\<close>

lemma length_siftdown: "length (siftdown heap x s pos) = length heap"
  by (induction heap x s pos rule: siftdown.induct) (subst siftdown.simps, simp add: Let_def)

lemma set_siftdown:
  "pos < length heap \<Longrightarrow> set (siftdown heap x s pos) \<subseteq> insert x (set heap)"
proof (induction heap x s pos rule: siftdown.induct)
  case (1 heap newitem startpos pos)
  show ?case
  proof (cases "pos > startpos \<and> score newitem < score (heap ! ((pos - 1) div 2))")
    case True
    let ?pp = "(pos - 1) div 2"
    have pp: "?pp < length heap" using "1.prems" by auto
    then have parent: "heap ! ?pp \<in> set heap" by simp
    have "set (siftdown (heap[pos := heap ! ?pp]) newitem startpos ?pp)
        \<subseteq> insert newitem (set (heap[pos := heap ! ?pp]))"
      using True pp by (intro "1.IH"[OF _ refl refl]) auto
    also have "\<dots> \<subseteq> insert newitem (set heap)"
      using set_update_subset_insert[of heap pos "heap ! ?pp"] parent by auto
    finally show ?thesis
      using True by (subst siftdown.simps) (simp add: Let_def)
  next
    case False
    then have "siftdown heap newitem startpos pos = heap[pos := newitem]"
      by (subst siftdown.simps) (auto simp: Let_def)
    then show ?thesis
      using set_update_subset_insert[of heap pos newitem] by simp
  qed
qed

lemma length_heappush: "length (heappush heap x) = Suc (length heap)"
  by (simp add: heappush_def length_siftdown del: siftdown.simps)

lemma set_heappush: "set (heappush heap x) \<subseteq> insert x (set heap)"
  using set_siftdown[of "length heap" "heap @ [x]" x 0]
  by (auto simp: heappush_def simp del: siftdown.simps)

lemma push_all_Inr:
  "push_all E ir wd ps items h = Inr h' \<Longrightarrow>
   length h' = length h + length items \<and>
   (\<forall>sd \<in> set h'. sd \<in> set h \<or> (\<exists>item \<in> set items. scored_document E ir wd ps item = Inr sd))"
proof (induction items arbitrary: h)
  case Nil
  then show ?case by simp
next
  case (Cons item items)
  from Cons.prems obtain sd0 where
    sd0: "scored_document E ir wd ps item = Inr sd0"
    and rest: "push_all E ir wd ps items (heappush h sd0) = Inr h'"
    by (auto split: sum.splits)
  from Cons.IH[OF rest] have
    len: "length h' = length (heappush h sd0) + length items"
    and mem: "\<forall>sd \<in> set h'. sd \<in> set (heappush h sd0) \<or>
               (\<exists>item \<in> set items. scored_document E ir wd ps item = Inr sd)"
    by simp_all
  have "sd \<in> set h \<or> (\<exists>i \<in> set (item # items). scored_document E ir wd ps i = Inr sd)"
    if "sd \<in> set h'" for sd
  proof -
    from mem that consider "sd \<in> set (heappush h sd0)"
      | "\<exists>i \<in> set items. scored_document E ir wd ps i = Inr sd" by blast
    then show ?thesis
    proof cases
      case 1
      then have "sd = sd0 \<or> sd \<in> set h" using set_heappush[of h sd0] by auto
      then show ?thesis using sd0 by auto
    next
      case 2
      then show ?thesis by auto
    qed
  qed
  then show ?case using len by (simp add: length_heappush)
qed


lemma distinct_dict_add: "distinct (map fst d) \<Longrightarrow> distinct (map fst (dict_add k v d))"
  by (simp add: dict_add_def distinct_update split: option.splits)

lemma distinct_cosine_postings:
  "distinct (map fst sc) \<Longrightarrow> distinct (map fst (cosine_postings t wtq ps sc))"
  by (induction ps arbitrary: sc) (auto simp: Let_def distinct_dict_add)

lemma distinct_cosine_terms:
  "cosine_terms ix qs sc = Inr sc' \<Longrightarrow> distinct (map fst sc) \<Longrightarrow> distinct (map fst sc')"
proof (induction qs arbitrary: sc)
  case Nil
  then show ?case by simp
next
  case (Cons q qs)
  then show ?case
    by (auto split: sum.splits if_splits intro: distinct_cosine_postings)
qed

lemma distinct_cosine_score:
  "cosine_score ix qp = Inr scores \<Longrightarrow> distinct (map fst scores)"
  unfolding cosine_score_def by (erule distinct_cosine_terms) simp

lemma map_sum_Some_Inr:
  "map_sum id Some m = Inr y \<longleftrightarrow> (\<exists>x. m = Inr x \<and> y = Some x)"
  by (cases m) auto

lemma search_Inr:
  assumes "search E ir query k wd wp sf = Inr res"
  shows "\<exists>qp scores ps h. create_query_pii E query = Inr qp \<and> sf (pii ir) qp = Inr scores \<and>
           (if wp then \<exists>m. phrase_query (pii ir) qp (map fst scores) = Inr m \<and> ps = Some m
            else ps = None) \<and>
           push_all E ir wd ps scores [] = Inr h \<and>
           res = map (\<lambda>sd. (doc sd, score sd)) (nlargest k score h)"
  using assms
  by (auto simp: search_def bind_err_def map_sum_Some_Inr split: sum.splits if_splits)




text \<open>
  Claim C4, amended: a \<open>search\<close> result is sorted by score, larger scores first, where equal
  scores may follow each other; it has at most \<open>max 0 k\<close> entries and at most as many entries
  as there are documents in the cosine score map.
\<close>

theorem search_ranking:
  assumes "search E ir query k with_date with_phrase cosine_score = Inr res"
  shows "sorted_wrt (\<lambda>a b. snd b \<le> snd a) res \<and> int (length res) \<le> max 0 k \<and>
     (\<exists>qp scores. create_query_pii E query = Inr qp \<and> cosine_score (pii ir) qp = Inr scores \<and>
        length res \<le> card (dom (map_of scores)))"
proof -
  from search_Inr[OF assms] obtain qp scores ps h where
    qp: "create_query_pii E query = Inr qp" and sc: "cosine_score (pii ir) qp = Inr scores"
    and h: "push_all E ir with_date ps scores [] = Inr h"
    and res: "res = map (\<lambda>sd. (doc sd, score sd)) (nlargest k score h)"
    by blast
  let ?s = "sort_key (\<lambda>x. - score x) h"
  have "sorted (map (\<lambda>x. - score x) ?s)" by (rule sorted_sort_key)
  then have "sorted_wrt (\<lambda>x y. score y \<le> score x) ?s"
    by (simp add: sorted_map)
  then have "sorted_wrt (\<lambda>x y. score y \<le> score x) (take (nat k) ?s)"
    by (rule sorted_wrt_take)
  then have sorted: "sorted_wrt (\<lambda>a b. snd b \<le> snd a) res"
    by (simp add: res nlargest_def sorted_wrt_map)
  have len_h: "length h = length scores"
    using push_all_Inr[OF h] by simp
  have len: "length res = min (nat k) (length scores)"
    by (simp add: res nlargest_def len_h min.commute)
  have "card (dom (map_of scores)) = length scores"
    using distinct_cosine_score[OF sc] distinct_card[of "map fst scores"]
    by (simp add: dom_map_of_conv_image_fst)
  then show ?thesis
    using sorted len qp sc by auto
qed

subsection \<open>The example collections\<close>

lemmas collection_defs =
  IRData_init_def compute_doc_lengths_def dict_add_def parse_date_def

lemmas search_defs =
  search_def cosine_score_def phrase_query_def scored_document_def py_div_def dict_get_def
  dict_add_def date_score_def parse_date_def heappush_def nlargest_def DATE_WEIGHT_def
  PHRASE_QUERY_WEIGHT_def INDEX_ELIMINATION_def example_strptime_def example_timestamp_def
  datetime_min_def

lemmas champions_defs =
  generate_champions_list_def champions_of_def tf_idf_func_def py_div_def py_take_def

lemma example_env_simps:
  "tokenize example_env s = split_spaces s []"
  "strptime example_env s = example_strptime s"
  "timestamp example_env t = example_timestamp t"
  by (simp_all add: example_env_def)



lemma twin_collection:
  "create_pii example_env twin_docs = Inr twin_index"
  "IRData_init example_env twin_index twin_docs = Inr twin_ir"
  by (simp_all add: build_defs collection_defs twin_docs_def twin_index_def twin_ir_def)

lemma title_collection:
  "create_pii example_env title_docs = Inr title_index"
  "IRData_init example_env title_index title_docs = Inr title_ir"
  by (simp_all add: build_defs collection_defs title_docs_def title_index_def title_ir_def)


lemma query_a:
  "create_query_pii example_env ''a'' =
     Inr \<lparr>tokens = [(''a'', \<lparr>idf = 0, linear_df = 1,
             positional_list = [(''0'', \<lparr>tf = 1, linear_tf = 1, positions = [0], weight = 1\<rparr>)],
             champions_list = None\<rparr>)]\<rparr>"
  by (simp add: build_defs)

lemma query_a_b:
  "create_query_pii example_env ''a b'' =
     Inr \<lparr>tokens =
       [(''a'', \<lparr>idf = 0, linear_df = 1,
           positional_list = [(''0'', \<lparr>tf = 1, linear_tf = 1, positions = [0], weight = 1\<rparr>)],
           champions_list = None\<rparr>),
        (''b'', \<lparr>idf = 0, linear_df = 1,
           positional_list = [(''0'', \<lparr>tf = 1, linear_tf = 1, positions = [1], weight = 1\<rparr>)],
           champions_list = None\<rparr>)]\<rparr>"
  by (simp add: build_defs)

lemma query_a_b_c:
  "create_query_pii example_env ''a b c'' =
     Inr \<lparr>tokens =
       [(''a'', \<lparr>idf = 0, linear_df = 1,
           positional_list = [(''0'', \<lparr>tf = 1, linear_tf = 1, positions = [0], weight = 1\<rparr>)],
           champions_list = None\<rparr>),
        (''b'', \<lparr>idf = 0, linear_df = 1,
           positional_list = [(''0'', \<lparr>tf = 1, linear_tf = 1, positions = [1], weight = 1\<rparr>)],
           champions_list = None\<rparr>),
        (''c'', \<lparr>idf = 0, linear_df = 1,
           positional_list = [(''0'', \<lparr>tf = 1, linear_tf = 1, positions = [2], weight = 1\<rparr>)],
           champions_list = None\<rparr>)]\<rparr>"
  by (simp add: build_defs)

lemma search_title_a_b:
  "search example_env title_ir ''a b'' 10 False True cosine_score =
     Inr [(\<lparr>doc_id = ''d1'', title = ''a'', url = ''u1'', content = [], date = Some ''x'',
            tags = None\<rparr>, 1),
          (\<lparr>doc_id = ''d2'', title = [], url = ''u2'', content = [], date = Some ''x'',
            tags = None\<rparr>, 1)]"
  by (simp add: query_a_b search_defs lookup_defs title_ir_def title_index_def example_env_simps)

lemma search_twin:
  "search example_env twin_ir ''a b c'' 10 False True cosine_score =
     Inr [(\<lparr>doc_id = ''d1'', title = ''a'', url = ''u1'', content = [], date = Some ''x'',
            tags = None\<rparr>, 0),
          (\<lparr>doc_id = ''d2'', title = ''a'', url = ''u2'', content = [], date = Some ''x'',
            tags = None\<rparr>, 0)]"
  "search example_env twin_ir ''a b c'' (- 1) False True cosine_score = Inr []"
  by (simp_all add: query_a_b_c search_defs lookup_defs twin_ir_def twin_index_def
      example_env_simps)

lemma cosine_twin:
  "bind_err (create_query_pii example_env ''a b c'') (cosine_score (pii twin_ir)) =
     Inr [(''d1'', 0), (''d2'', 0)]"
  by (simp add: query_a_b_c search_defs lookup_defs twin_ir_def twin_index_def)







text \<open>
  Claim C4, as stated, asks for strictly descending scores, at most \<open>k\<close> results, and no more
  results than documents with a nonzero cosine score. In the collection of two equal
  documents every cosine score is 0; \<open>search\<close> with \<open>k = 10\<close> returns both documents with the
  same score 0, and with \<open>k = - 1\<close> it returns the empty list, whose length is not at most
  \<open>- 1\<close>.
\<close>

theorem search_returns_ties_and_zero_scores:
  "create_pii example_env twin_docs = Inr twin_index \<and>
   IRData_init example_env twin_index twin_docs = Inr twin_ir \<and>
   bind_err (create_query_pii example_env ''a b c'') (cosine_score (pii twin_ir)) =
     Inr [(''d1'', 0), (''d2'', 0)] \<and>
   search example_env twin_ir ''a b c'' 10 False True cosine_score =
     Inr [(\<lparr>doc_id = ''d1'', title = ''a'', url = ''u1'', content = [], date = Some ''x'',
            tags = None\<rparr>, 0),
          (\<lparr>doc_id = ''d2'', title = ''a'', url = ''u2'', content = [], date = Some ''x'',
            tags = None\<rparr>, 0)] \<and>
   search example_env twin_ir ''a b c'' (- 1) False True cosine_score = Inr []"
  by (simp add: twin_collection cosine_twin search_twin)

theorem search_ranking_witness:
  "search example_env title_ir ''a b'' 10 False True cosine_score =
     Inr [(\<lparr>doc_id = ''d1'', title = ''a'', url = ''u1'', content = [], date = Some ''x'',
            tags = None\<rparr>, 1),
          (\<lparr>doc_id = ''d2'', title = [], url = ''u2'', content = [], date = Some ''x'',
            tags = None\<rparr>, 1)] \<and>
   sorted_wrt (\<lambda>a b. snd b \<le> snd a)
     [(\<lparr>doc_id = ''d1'', title = ''a'', url = ''u1'', content = [], date = Some ''x'',
        tags = None\<rparr>, 1::real),
      (\<lparr>doc_id = ''d2'', title = [], url = ''u2'', content = [], date = Some ''x'',
        tags = None\<rparr>, 1)] \<and>
   (\<exists>qp scores. create_query_pii example_env ''a b'' = Inr qp \<and>
      cosine_score (pii title_ir) qp = Inr scores \<and> 2 \<le> card (dom (map_of scores)))"
  using search_ranking[OF search_title_a_b] search_title_a_b by (simp add: numeral_2_eq_2)

text \<open>
  Claim C6, as stated, bounds the size of every champions list by \<open>r\<close> for every integer \<open>r\<close>.
  With \<open>r = - 1\<close> the slice \<^verbatim>\<open>[:r]\<close> drops the last of the two sorted postings, and every
  champions list of the collection of two equal documents has one entry.
\<close>

theorem champions_list_negative_r:
  "IRData_init example_env twin_index twin_docs = Inr twin_ir \<and>
   map_sum id (\<lambda>ir. map (\<lambda>p. map_option (map fst) (champions_list (snd p))) (tokens (pii ir)))
     (generate_champions_list twin_ir (Some (- 1))) =
     Inr [Some [''d1''], Some [''d1''], Some [''d1'']]"
  by (simp add: twin_collection) (simp add: champions_defs twin_ir_def twin_index_def)

theorem champions_lists_witness:
  "IRData_init example_env twin_index twin_docs = Inr twin_ir \<and>
   generate_champions_list twin_ir None = Inr twin_ir \<and>
   (\<exists>ir'. generate_champions_list twin_ir (Some 1) = Inr ir' \<and>
       list_all2 (\<lambda>p p'. fst p' = fst p \<and> positional_list (snd p') = positional_list (snd p) \<and>
           (\<exists>c. champions_list (snd p') = Some c \<and>
              c = sort_key fst (py_take 1
                    (sort_key (\<lambda>td. - champion_score twin_index (snd p) td)
                       (positional_list (snd p)))) \<and>
              (0 \<le> (1::int) \<longrightarrow> int (length c) \<le> 1) \<and>
              mset c \<subseteq># mset (positional_list (snd p)) \<and>
              sorted (map fst c) \<and>
              (\<forall>x \<in> set c. \<forall>y \<in># mset (positional_list (snd p)) - mset c.
                 champion_score twin_index (snd p) y \<le> champion_score twin_index (snd p) x)))
         (tokens twin_index) (tokens (pii ir')))"
  using champions_lists[OF twin_collection(2), of 1] twin_collection(2) by blast

subsection \<open>Sorted lookup on non-empty sequences\<close>

lemma bs_loop_bounds:
  "0 \<le> low \<Longrightarrow> low \<le> high \<Longrightarrow> high < int (length a) \<Longrightarrow>
   \<exists>r. bs_loop a x low high = Inr r \<and> low \<le> r \<and> r \<le> high"
proof (induction a x low high rule: bs_loop.induct)
  case (1 a x low high)
  show ?case
  proof (cases "low < high")
    case False
    with 1 show ?thesis by simp
  next
    case True
    let ?mid = "(low + high) div 2"
    have mid: "low \<le> ?mid" "?mid < high" using True by auto
    have idx: "py_index a ?mid = Inr (a ! nat ?mid)"
      using mid 1(3,5) by (auto simp: py_index_def Let_def)
    show ?thesis
    proof (cases "fst (a ! nat ?mid) < x")
      case lt: True
      have "\<exists>r. bs_loop a x (?mid + 1) high = Inr r \<and> ?mid + 1 \<le> r \<and> r \<le> high"
        using 1(1)[OF True idx lt] mid 1(3,5) by auto
      then show ?thesis using True idx lt mid by (subst bs_loop.simps) auto
    next
      case ge: False
      have "\<exists>r. bs_loop a x low ?mid = Inr r \<and> low \<le> r \<and> r \<le> ?mid"
        using 1(2)[OF True idx ge] mid 1(3,5) by auto
      then show ?thesis using True idx ge mid by (subst bs_loop.simps) auto
    qed
  qed
qed

lemma binary_search_tuple_nonempty:
  assumes "a \<noteq> []"
  shows "binary_search_tuple a x = Inl KeyError \<or>
         (\<exists>v. binary_search_tuple a x = Inr v \<and> (x, v) \<in> set a)"
proof -
  have "0 \<le> int (length a) - 1" "int (length a) - 1 < int (length a)"
    using assms by (auto simp: Suc_leI)
  from bs_loop_bounds[OF _ this, of x]
  obtain r where r: "bs_loop a x 0 (int (length a) - 1) = Inr r" "0 \<le> r" "r < int (length a)"
    by auto
  then have idx: "py_index a r = Inr (a ! nat r)" by (auto simp: py_index_def Let_def)
  have "a ! nat r \<in> set a" using r by (intro nth_mem) auto
  then have "fst (a ! nat r) = x \<Longrightarrow> (x, snd (a ! nat r)) \<in> set a"
    by (metis prod.collapse)
  then show ?thesis
    using r idx by (auto simp: binary_search_tuple_def)
qed

subsection \<open>Phrase queries\<close>

lemma lookup_positions_cases:
  assumes "tokens ix \<noteq> []" and "\<forall>p \<in> set (tokens ix). get_search_scope_list (snd p) \<noteq> []"
  shows "lookup_positions ix t d =
     (if has_entry ix d t then Inr (entry_positions ix d t) else Inl KeyError)"
proof -
  consider "getitem ix t = Inl KeyError"
    | tok where "getitem ix t = Inr tok" "(t, tok) \<in> set (tokens ix)"
    using binary_search_tuple_nonempty[OF assms(1), of t] unfolding getitem_def by blast
  then show ?thesis
  proof cases
    case 1
    then show ?thesis
      by (simp add: lookup_positions_def bind_err_def has_entry_def)
  next
    case 2
    then have "get_search_scope_list tok \<noteq> []" using assms(2) by force
    from binary_search_tuple_nonempty[OF this, of d]
    have "Token_getitem tok d = Inl KeyError \<or> (\<exists>v. Token_getitem tok d = Inr v)"
      unfolding Token_getitem_def by blast
    then show ?thesis
      using 2(1)
      by (auto simp: lookup_positions_def bind_err_def has_entry_def entry_positions_def)
  qed
qed

lemma phrase_walk_run:
  assumes "tokens ix \<noteq> []" and "\<forall>p \<in> set (tokens ix). get_search_scope_list (snd p) \<noteq> []"
  shows "phrase_walk ix d qs pos ml =
     Inr (ml + int (length (takeWhile
            (\<lambda>(j, term). pos + 1 + int j - int n \<in> set (entry_positions ix d term))
            (enumerate n (map fst qs)))))"
proof (induction qs arbitrary: pos ml n)
  case Nil
  then show ?case by simp
next
  case (Cons q qs)
  have eq: "(\<lambda>(j, term). pos + 1 + 1 + int j - int (Suc n) \<in> set (entry_positions ix d term)) =
            (\<lambda>(j, term). pos + 1 + int j - int n \<in> set (entry_positions ix d term))"
  proof -
    have "pos + 1 + 1 + int j - int (Suc n) = pos + 1 + int j - int n" for j
      by simp
    then show ?thesis by (simp only:)
  qed
  show ?case
  proof (cases "has_entry ix d (fst q)")
    case True
    then show ?thesis
      using Cons.IH[of "pos + 1" "ml + 1" "Suc n", unfolded eq]
      by (simp add: lookup_positions_cases[OF assms])
  next
    case False
    then have "entry_positions ix d (fst q) = []"
      by (auto simp: has_entry_def entry_positions_def split: sum.splits)
    then show ?thesis
      using False by (simp add: lookup_positions_cases[OF assms])
  qed
qed

lemma phrase_walk_run_length:
  assumes "tokens ix \<noteq> []" and "\<forall>p \<in> set (tokens ix). get_search_scope_list (snd p) \<noteq> []"
  shows "phrase_walk ix d qs pos 1 = Inr (run_length ix d (map fst qs) pos)"
  using phrase_walk_run[OF assms, of d qs pos 1 0] by (simp add: run_length_def)

lemma phrase_positions_best:
  assumes "tokens ix \<noteq> []" and "\<forall>p \<in> set (tokens ix). get_search_scope_list (snd p) \<noteq> []"
  shows "phrase_positions ix d qs ps mc =
     Inr (Max (insert mc (run_length ix d (map fst qs) ` set (filter (\<lambda>p. p \<noteq> - 1) ps))))"
proof (induction ps arbitrary: mc)
  case Nil
  then show ?case by simp
next
  case (Cons p ps)
  show ?case
  proof (cases "p = - 1")
    case True
    then show ?thesis using Cons.IH[of mc] by simp
  next
    case False
    let ?R = "run_length ix d (map fst qs) ` set (filter (\<lambda>p. p \<noteq> - 1) ps)"
    have "Max (insert (max mc (run_length ix d (map fst qs) p)) ?R) =
          Max (insert mc (insert (run_length ix d (map fst qs) p) ?R))"
      by (cases "?R = {}") (auto simp: max.assoc max.commute max.left_commute)
    then show ?thesis
      using False Cons.IH[of "max mc (run_length ix d (map fst qs) p)"]
      by (simp add: phrase_walk_run_length[OF assms] insert_commute)
  qed
qed

declare phrase_start.simps [simp del]

lemma phrase_start_found:
  assumes "tokens ix \<noteq> []" and "\<forall>p \<in> set (tokens ix). get_search_scope_list (snd p) \<noteq> []"
  shows "(dropWhile (\<lambda>t. \<not> has_entry ix d t) (drop i (butlast (map fst q))) = [] \<longrightarrow>
            (\<exists>tp. phrase_start ix q d i = Inr (None, tp))) \<and>
         (\<forall>s rest. dropWhile (\<lambda>t. \<not> has_entry ix d t) (drop i (butlast (map fst q))) = s # rest \<longrightarrow>
            phrase_start ix q d i =
              Inr (Some (entry_positions ix d s),
                   i + length (takeWhile (\<lambda>t. \<not> has_entry ix d t) (drop i (butlast (map fst q))))))"
  using assms
proof (induction ix q d i rule: phrase_start.induct)
  case (1 ix q d i)
  note look = lookup_positions_cases[OF "1.prems"]
  show ?case
  proof (cases "i + 1 < length q")
    case False
    then have "drop i (butlast (map fst q)) = []" by simp
    moreover have "phrase_start ix q d i = Inr (None, i)"
      using False by (subst phrase_start.simps) simp
    ultimately show ?thesis by simp
  next
    case True
    then have i: "i < length (butlast (map fst q))" by simp
    have head: "butlast (map fst q) ! i = fst (q ! i)"
      using True by (simp add: nth_butlast)
    have split: "drop i (butlast (map fst q)) = fst (q ! i) # drop (Suc i) (butlast (map fst q))"
      using Cons_nth_drop_Suc[OF i] head by simp
    show ?thesis
    proof (cases "has_entry ix d (fst (q ! i))")
      case e: True
      have "phrase_start ix q d i = Inr (Some (entry_positions ix d (fst (q ! i))), i)"
        using True e by (subst phrase_start.simps) (simp add: look)
      then show ?thesis using e by (simp add: split)
    next
      case e: False
      have step: "phrase_start ix q d i = phrase_start ix q d (i + 1)"
        using True e by (subst phrase_start.simps) (simp add: look)
      have lk: "lookup_positions ix (fst (q ! i)) d = Inl KeyError"
        using e by (simp add: look)
      have ih: "(dropWhile (\<lambda>t. \<not> has_entry ix d t) (drop (i + 1) (butlast (map fst q))) = [] \<longrightarrow>
            (\<exists>tp. phrase_start ix q d (i + 1) = Inr (None, tp))) \<and>
         (\<forall>s rest. dropWhile (\<lambda>t. \<not> has_entry ix d t) (drop (i + 1) (butlast (map fst q))) = s # rest \<longrightarrow>
            phrase_start ix q d (i + 1) =
              Inr (Some (entry_positions ix d s),
                   i + 1 + length (takeWhile (\<lambda>t. \<not> has_entry ix d t)
                                    (drop (i + 1) (butlast (map fst q))))))"
        by (rule "1.IH"[OF True lk refl "1.prems"])
      show ?thesis
        using ih e unfolding step split by simp
    qed
  qed
qed

lemma following_terms:
  assumes "butlast terms = tw @ s # rest"
  shows "drop (Suc (length tw)) terms = rest @ [last terms]"
proof -
  have "terms \<noteq> []" using assms by auto
  then have "terms = (tw @ s # rest) @ [last terms]"
    using append_butlast_last_id[of terms] assms by simp
  then have "drop (Suc (length tw)) terms = drop (Suc (length tw)) (tw @ s # rest @ [last terms])"
    by simp
  then show ?thesis by simp
qed

lemma phrase_docs_step:
  assumes "tokens ix \<noteq> []" and "\<forall>p \<in> set (tokens ix). get_search_scope_list (snd p) \<noteq> []"
  shows "phrase_docs ix q (d # ds) acc =
     phrase_docs ix q ds
       (case phrase_entry ix (map fst q) d of None \<Rightarrow> acc | Some v \<Rightarrow> AList.update d v acc)"
proof (cases "dropWhile (\<lambda>t. \<not> has_entry ix d t) (butlast (map fst q))")
  case Nil
  then obtain tp where start: "phrase_start ix q d 0 = Inr (None, tp)"
    using phrase_start_found[OF assms, of d 0 q] by auto
  have "phrase_entry ix (map fst q) d = None"
    unfolding phrase_entry_def Nil by simp
  then show ?thesis by (simp add: start)
next
  case (Cons s rest)
  let ?tw = "takeWhile (\<lambda>t. \<not> has_entry ix d t) (butlast (map fst q))"
  have start: "phrase_start ix q d 0 = Inr (Some (entry_positions ix d s), length ?tw)"
    using phrase_start_found[OF assms, of d 0 q] Cons by auto
  have bl: "butlast (map fst q) = ?tw @ s # rest"
    using takeWhile_dropWhile_id[of "\<lambda>t. \<not> has_entry ix d t" "butlast (map fst q)"] Cons by simp
  have "length (butlast (map fst q)) = length (?tw @ s # rest)"
    using bl by (rule arg_cong)
  then have lt: "length ?tw + 1 < length q" by simp
  have "map fst (drop (Suc (length ?tw)) q) = rest @ [last (map fst q)]"
    using following_terms[OF bl] by (simp add: drop_map)
  then have best: "phrase_positions ix d (drop (Suc (length ?tw)) q) (entry_positions ix d s) 0 =
      Inr (best_run ix d (rest @ [last (map fst q)]) (entry_positions ix d s))"
    by (simp add: phrase_positions_best[OF assms] best_run_def)
  have "phrase_entry ix (map fst q) d =
      phrase_multiplier (best_run ix d (rest @ [last (map fst q)]) (entry_positions ix d s))
        (length q)"
    unfolding phrase_entry_def Cons by simp
  then show ?thesis
    using lt by (simp add: start best phrase_multiplier_def)
qed

lemma phrase_docs_fold:
  assumes "tokens ix \<noteq> []" and "\<forall>p \<in> set (tokens ix). get_search_scope_list (snd p) \<noteq> []"
  shows "\<exists>ps. phrase_docs ix q ds acc = Inr ps \<and>
     (\<forall>d. map_of ps d =
        (if d \<in> set ds
         then (case phrase_entry ix (map fst q) d of None \<Rightarrow> map_of acc d | Some v \<Rightarrow> Some v)
         else map_of acc d))"
proof (induction ds arbitrary: acc)
  case Nil
  then show ?case by simp
next
  case (Cons d ds)
  let ?acc = "case phrase_entry ix (map fst q) d of None \<Rightarrow> acc | Some v \<Rightarrow> AList.update d v acc"
  from Cons.IH[of ?acc] obtain ps where ps: "phrase_docs ix q ds ?acc = Inr ps"
    "\<forall>d'. map_of ps d' =
        (if d' \<in> set ds
         then (case phrase_entry ix (map fst q) d' of None \<Rightarrow> map_of ?acc d' | Some v \<Rightarrow> Some v)
         else map_of ?acc d')"
    by blast
  have "map_of ps d' =
        (if d' \<in> set (d # ds)
         then (case phrase_entry ix (map fst q) d' of None \<Rightarrow> map_of acc d' | Some v \<Rightarrow> Some v)
         else map_of acc d')" for d'
    using ps(2) by (auto simp: update_conv' split: option.splits)
  moreover have "phrase_docs ix q (d # ds) acc = Inr ps"
    using ps(1) by (simp only: phrase_docs_step[OF assms])
  ultimately show ?case by blast
qed

text \<open>
  Claim C5, amended: on an index whose term sequence and posting sequences are not empty,
  \<open>phrase_query\<close> returns, and its result maps a candidate document to an entry exactly as
  follows. The starting term is the first query term, scanning left to right and leaving
  out the last term, whose lookup for the document succeeds, whether its positions are real
  or the sentinel \<open>- 1\<close>. There is no entry if no such term exists or the best unbroken run of
  consecutive positions over the following terms, from a real start position, has length at
  most 1; otherwise the entry is \<open>1 + PHRASE_QUERY_WEIGHT * (best_run_length / L)\<close>. Other
  documents have no entry, and a missing entry reads as multiplier 1.
\<close>

theorem phrase_query_entries:
  assumes "tokens ix \<noteq> []" and "\<forall>p \<in> set (tokens ix). get_search_scope_list (snd p) \<noteq> []"
  shows "\<exists>ps. phrase_query ix qp ds = Inr ps \<and>
     (\<forall>d. map_of ps d = (if d \<in> set ds then phrase_entry ix (map fst (tokens qp)) d else None)) \<and>
     (\<forall>d. dict_get ps d 1 =
        (case (if d \<in> set ds then phrase_entry ix (map fst (tokens qp)) d else None) of
           None \<Rightarrow> 1 | Some m \<Rightarrow> m))"
proof -
  from phrase_docs_fold[OF assms, of "tokens qp" ds "[]"] obtain ps where
    ps: "phrase_docs ix (tokens qp) ds [] = Inr ps"
    "\<forall>d. map_of ps d =
        (if d \<in> set ds
         then (case phrase_entry ix (map fst (tokens qp)) d of
                 None \<Rightarrow> map_of [] d | Some v \<Rightarrow> Some v)
         else map_of [] d)"
    by blast
  have m: "map_of ps d = (if d \<in> set ds then phrase_entry ix (map fst (tokens qp)) d else None)"
    for d
    using ps(2) by (auto split: option.splits)
  show ?thesis
    using ps(1) m by (simp add: phrase_query_def dict_get_def)
qed

lemmas phrase_defs =
  phrase_query_def phrase_start.simps PHRASE_QUERY_WEIGHT_def

lemmas phrase_spec_defs =
  claimed_phrase_entry_def phrase_entry_def has_real_entry_def has_entry_def entry_positions_def
  best_run_def run_length_def phrase_multiplier_def PHRASE_QUERY_WEIGHT_def

lemma query_b_c:
  "create_query_pii example_env ''b c'' =
     Inr \<lparr>tokens =
       [(''b'', \<lparr>idf = 0, linear_df = 1,
           positional_list = [(''0'', \<lparr>tf = 1, linear_tf = 1, positions = [0], weight = 1\<rparr>)],
           champions_list = None\<rparr>),
        (''c'', \<lparr>idf = 0, linear_df = 1,
           positional_list = [(''0'', \<lparr>tf = 1, linear_tf = 1, positions = [1], weight = 1\<rparr>)],
           champions_list = None\<rparr>)]\<rparr>"
  by (simp add: build_defs)

text \<open>
  Claim C5, as stated, starts at the first query term with a real position. Document \<open>d1\<close>
  has the term \<open>a\<close> in its title only (position \<open>- 1\<close>) and the content \<open>b c\<close>. For the query
  \<open>a b c\<close> the claim starts at \<open>b\<close>, finds the run \<open>b c\<close> of length 2 and gives the entry
  \<open>1 + 2 * (2 / 3)\<close>; the code starts at \<open>a\<close>, skips its only position \<open>- 1\<close> and gives no
  entry.
\<close>

theorem phrase_query_starts_at_sentinel_term:
  "create_pii example_env twin_docs = Inr twin_index \<and>
   bind_err (create_query_pii example_env ''a b c'')
     (\<lambda>qp. phrase_query twin_index qp [''d1'']) = Inr [] \<and>
   bind_err (create_query_pii example_env ''a b c'')
     (\<lambda>qp. Inr (claimed_phrase_entry twin_index (map fst (tokens qp)) ''d1'')) =
     Inr (Some (7 / 3))"
proof -
  have code: "bind_err (create_query_pii example_env ''a b c'')
     (\<lambda>qp. phrase_query twin_index qp [''d1'']) = Inr []"
    by (simp add: query_a_b_c phrase_defs lookup_defs twin_index_def)
  have claim: "bind_err (create_query_pii example_env ''a b c'')
     (\<lambda>qp. Inr (claimed_phrase_entry twin_index (map fst (tokens qp)) ''d1'')) =
     Inr (Some (7 / 3))"
    by (simp add: query_a_b_c phrase_spec_defs lookup_defs twin_index_def enumerate_eq_zip)
  show ?thesis
    using code claim twin_collection(1) by simp
qed

theorem phrase_query_entries_witness:
  "tokens twin_index \<noteq> [] \<and>
   list_all (\<lambda>p. get_search_scope_list (snd p) \<noteq> []) (tokens twin_index) \<and>
   bind_err (create_query_pii example_env ''b c'')
     (\<lambda>qp. phrase_query twin_index qp [''d1'']) = Inr [(''d1'', 3)] \<and>
   (\<exists>ps. phrase_query twin_index
           \<lparr>tokens =
             [(''b'', \<lparr>idf = 0, linear_df = 1,
                 positional_list =
                   [(''0'', \<lparr>tf = 1, linear_tf = 1, positions = [0], weight = 1\<rparr>)],
                 champions_list = None\<rparr>),
              (''c'', \<lparr>idf = 0, linear_df = 1,
                 positional_list =
                   [(''0'', \<lparr>tf = 1, linear_tf = 1, positions = [1], weight = 1\<rparr>)],
                 champions_list = None\<rparr>)]\<rparr> [''d1''] = Inr ps \<and>
     (\<forall>d. map_of ps d =
        (if d \<in> set [''d1''] then phrase_entry twin_index [''b'', ''c''] d else None)) \<and>
     (\<forall>d. dict_get ps d 1 =
        (case (if d \<in> set [''d1''] then phrase_entry twin_index [''b'', ''c''] d else None) of
           None \<Rightarrow> 1 | Some m \<Rightarrow> m)))"
proof -
  have h1: "tokens twin_index \<noteq> []"
    by (simp add: twin_index_def)
  have h2: "\<forall>p \<in> set (tokens twin_index). get_search_scope_list (snd p) \<noteq> []"
    by (simp add: twin_index_def get_search_scope_list_def)
  have ev: "bind_err (create_query_pii example_env ''b c'')
     (\<lambda>qp. phrase_query twin_index qp [''d1'']) = Inr [(''d1'', 3)]"
    by (simp add: query_b_c phrase_defs lookup_defs twin_index_def)
  show ?thesis
    using phrase_query_entries[OF h1 h2, of
        "\<lparr>tokens =
             [(''b'', \<lparr>idf = 0, linear_df = 1,
                 positional_list =
                   [(''0'', \<lparr>tf = 1, linear_tf = 1, positions = [0], weight = 1\<rparr>)],
                 champions_list = None\<rparr>),
              (''c'', \<lparr>idf = 0, linear_df = 1,
                 positional_list =
                   [(''0'', \<lparr>tf = 1, linear_tf = 1, positions = [1], weight = 1\<rparr>)],
                 champions_list = None\<rparr>)]\<rparr>" "[''d1'']"] h1 h2 ev
    by (simp add: list_all_iff cong: if_cong)
qed

subsection \<open>Sorted lookup on sorted sequences\<close>

lemma bs_loop_sorted:
  "sorted (map fst a) \<Longrightarrow> 0 \<le> low \<Longrightarrow> low \<le> high \<Longrightarrow> high < int (length a) \<Longrightarrow>
   bs_loop a x low high = Inr r \<Longrightarrow>
   (\<forall>i. low \<le> i \<and> i < r \<longrightarrow> fst (a ! nat i) < x) \<and> (r < high \<longrightarrow> x \<le> fst (a ! nat r))"
proof (induction a x low high rule: bs_loop.induct)
  case (1 a x low high)
  show ?case
  proof (cases "low < high")
    case False
    then have "r = low" using "1.prems"(5) by simp
    then show ?thesis using False "1.prems"(3) by auto
  next
    case True
    let ?mid = "(low + high) div 2"
    have mid: "low \<le> ?mid" "?mid < high" using True by auto
    have idx: "py_index a ?mid = Inr (a ! nat ?mid)"
      using mid "1.prems"(2,4) by (auto simp: py_index_def Let_def)
    have mono: "fst (a ! nat i) \<le> fst (a ! nat j)" if "0 \<le> i" "i \<le> j" "j < int (length a)" for i j
    proof -
      have "map fst a ! nat i \<le> map fst a ! nat j"
        using that "1.prems"(1) by (intro sorted_nth_mono) auto
      then show ?thesis using that by simp
    qed
    show ?thesis
    proof (cases "fst (a ! nat ?mid) < x")
      case lt: True
      have step: "bs_loop a x (?mid + 1) high = Inr r"
        using "1.prems"(5) True idx lt by (subst (asm) bs_loop.simps) simp
      have ih: "(\<forall>i. ?mid + 1 \<le> i \<and> i < r \<longrightarrow> fst (a ! nat i) < x) \<and>
                (r < high \<longrightarrow> x \<le> fst (a ! nat r))"
        using "1.IH"(1)[OF True idx lt "1.prems"(1) _ _ "1.prems"(4) step] mid "1.prems"(2)
        by auto
      have "fst (a ! nat i) < x" if "low \<le> i" "i \<le> ?mid" for i
        using mono[of i ?mid] that lt mid "1.prems"(2,4) by auto
      then show ?thesis using ih by (metis add.commute not_le zless_imp_add1_zle)
    next
      case ge: False
      have step: "bs_loop a x low ?mid = Inr r"
        using "1.prems"(5) True idx ge by (subst (asm) bs_loop.simps) simp
      have ih: "(\<forall>i. low \<le> i \<and> i < r \<longrightarrow> fst (a ! nat i) < x) \<and>
                (r < ?mid \<longrightarrow> x \<le> fst (a ! nat r))"
        using "1.IH"(2)[OF True idx ge "1.prems"(1,2) _ _ step] mid "1.prems"(4)
        by auto
      have r_le: "r \<le> ?mid"
        using bs_loop_bounds[of low ?mid a x] step mid "1.prems"(2,4) by auto
      have "x \<le> fst (a ! nat r)" if "r < high"
      proof (cases "r < ?mid")
        case True
        then show ?thesis using ih by simp
      next
        case False
        then have "r = ?mid" using r_le by simp
        then show ?thesis using ge by simp
      qed
      then show ?thesis using ih by simp
    qed
  qed
qed

lemma binary_search_tuple_miss:
  assumes "sorted (map fst a)" and "a \<noteq> []" and "binary_search_tuple a x = Inl KeyError"
  shows "x \<notin> fst ` set a"
proof
  assume "x \<in> fst ` set a"
  then obtain j where j: "j < length a" "fst (a ! j) = x"
    by (metis imageE in_set_conv_nth)
  have b: "0 \<le> int (length a) - 1" "int (length a) - 1 < int (length a)"
    using assms(2) by (auto simp: Suc_leI)
  from bs_loop_bounds[OF _ b, of x]
  obtain r where r: "bs_loop a x 0 (int (length a) - 1) = Inr r" "0 \<le> r" "r \<le> int (length a) - 1"
    by auto
  have idx: "py_index a r = Inr (a ! nat r)" using r by (auto simp: py_index_def Let_def)
  have ne: "fst (a ! nat r) \<noteq> x"
    using assms(3) r(1) idx by (auto simp: binary_search_tuple_def split: if_splits)
  from bs_loop_sorted[OF assms(1) _ b r(1)]
  have inv: "\<forall>i. 0 \<le> i \<and> i < r \<longrightarrow> fst (a ! nat i) < x"
    "r < int (length a) - 1 \<longrightarrow> x \<le> fst (a ! nat r)"
    by auto
  have mono: "fst (a ! i) \<le> fst (a ! k)" if "i \<le> k" "k < length a" for i k
  proof -
    have "map fst a ! i \<le> map fst a ! k"
      using that assms(1) by (intro sorted_nth_mono) auto
    then show ?thesis using that by simp
  qed
  consider "int j < r" | "int j = r" | "r < int j" by linarith
  then show False
  proof cases
    case 1
    then have "fst (a ! nat (int j)) < x" using inv(1) by (metis of_nat_0_le_iff)
    then show ?thesis using j(2) by simp
  next
    case 2
    then show ?thesis using ne j(2) by auto
  next
    case 3
    then have "r < int (length a) - 1" using j(1) by linarith
    then have "x \<le> fst (a ! nat r)" using inv(2) by simp
    then have "x < fst (a ! nat r)" using ne by simp
    moreover have "fst (a ! nat r) \<le> fst (a ! j)"
      using mono[of "nat r" j] 3 j(1) r(2) by auto
    ultimately show ?thesis using j(2) by simp
  qed
qed

lemma binary_search_tuple_sorted:
  assumes "sorted_wrt (<) (map fst a)" and "a \<noteq> []"
  shows "binary_search_tuple a x =
     (case map_of a x of Some v \<Rightarrow> Inr v | None \<Rightarrow> Inl KeyError)"
proof -
  have s: "sorted (map fst a)" "distinct (map fst a)"
    using assms(1) by (simp_all add: strict_sorted_iff)
  from binary_search_tuple_nonempty[OF assms(2), of x]
  consider "binary_search_tuple a x = Inl KeyError"
    | v where "binary_search_tuple a x = Inr v" "(x, v) \<in> set a" by blast
  then show ?thesis
  proof cases
    case 1
    then have "x \<notin> fst ` set a" by (rule binary_search_tuple_miss[OF s(1) assms(2)])
    then have "map_of a x = None" by (simp add: map_of_eq_None_iff)
    then show ?thesis using 1 by simp
  next
    case 2
    then have "map_of a x = Some v" using s(2) by simp
    then show ?thesis using 2 by simp
  qed
qed

text \<open>
  On an index whose terms and postings are strictly ascending and not empty, as \<open>finalize\<close>
  leaves them, the lookup \<^verbatim>\<open>pii[term][doc_id]\<close> finds exactly the postings that exist.
\<close>

lemma lookup_positions_sorted:
  assumes "sorted_wrt (<) (map fst (tokens ix))" and "tokens ix \<noteq> []"
    and "\<forall>p \<in> set (tokens ix). sorted_wrt (<) (map fst (get_search_scope_list (snd p))) \<and>
           get_search_scope_list (snd p) \<noteq> []"
  shows "lookup_positions ix t d =
     (case map_of (tokens ix) t of
        None \<Rightarrow> Inl KeyError
      | Some tok \<Rightarrow>
          (case map_of (get_search_scope_list tok) d of
             None \<Rightarrow> Inl KeyError
           | Some data \<Rightarrow> Inr (positions data)))"
proof (cases "map_of (tokens ix) t")
  case None
  then show ?thesis
    by (simp add: lookup_positions_def getitem_def bind_err_def
        binary_search_tuple_sorted[OF assms(1,2)])
next
  case (Some tok)
  then have "(t, tok) \<in> set (tokens ix)" by (rule map_of_SomeD)
  then have tok: "sorted_wrt (<) (map fst (get_search_scope_list tok))"
    "get_search_scope_list tok \<noteq> []"
    using assms(3) by force+
  show ?thesis
    using Some
    by (simp add: lookup_positions_def getitem_def Token_getitem_def bind_err_def
        binary_search_tuple_sorted[OF assms(1,2)] binary_search_tuple_sorted[OF tok]
        split: option.splits)
qed

end
